theory Spec2Isabelle
  imports Main
begin

section \<open>Data model\<close>

text \<open>
  The input types (\<^verbatim>\<open>Observation\<close>, \<^verbatim>\<open>INatTaxonAncestor\<close>, \<^verbatim>\<open>TaxonChangeData\<close>) are
  imported by the source from \<^verbatim>\<open>../types/generator.types\<close>; the records below carry
  exactly the fields the source reads (\<open>taxonChangeDataRow\<close> is one element of a
  \<^verbatim>\<open>TaxonChangeData[]\<close>). Field names follow the source, with a prefix where
  two records share a name (\<^verbatim>\<open>id\<close>, \<^verbatim>\<open>name\<close>, \<^verbatim>\<open>rank\<close>).

  A JavaScript value that may be \<^verbatim>\<open>null\<close> or \<^verbatim>\<open>undefined\<close> is an \<open>option\<close>.
  A JavaScript number that may be \<^verbatim>\<open>NaN\<close> (the year or the epoch of an invalid date)
  is an \<open>int option\<close>, with \<open>None\<close> for \<^verbatim>\<open>NaN\<close>.
  Plain objects used as dictionaries are maps; property names are taken to be ordinary
  keys (no key is the name of a property inherited from \<^verbatim>\<open>Object.prototype\<close>).
\<close>

type_synonym jsnum = "int option"

record iNatTaxonAncestor =
  ancestor_id :: int
  ancestor_name :: string
  ancestor_rank :: string

record iNatTaxon =
  txn_id :: int
  txn_name :: string
  txn_rank :: string
  txn_ancestors :: "iNatTaxonAncestor list"

record taxonChange =
  change_id :: int
  change_type :: string

record iNatUser =
  login :: string
  user_name :: string
  user_id :: int

record identification =
  user :: iNatUser
  taxon :: iNatTaxon
  taxon_id :: int
  current :: bool
  created_at :: string
  taxon_change :: "taxonChange option"

record observation =
  obs_id :: int
  observed_on_details :: "string option"
  created_at_details :: string
  obs_user :: iNatUser
  identifications :: "identification list"

record taxonChangeDataRow =
  tcd_id :: int
  previousSpeciesName :: string
  newSpeciesName :: string
  yearChanged :: jsnum
  taxonChangeId :: int

record historicalCuratorObsIdentification =
  taxonId :: int
  confirmationDate :: string
  isTaxonChange :: bool

record confirmation =
  deprecatedTaxonIds :: "int list"
  originalConfirmationDate :: "string option"

text \<open>
  The two ways the program stops: \<^verbatim>\<open>process.exit(1)\<close> after the message
  ``Unknown taxon change type'', and the \<^verbatim>\<open>TypeError\<close> JavaScript throws when a
  property of \<^verbatim>\<open>undefined\<close> or \<^verbatim>\<open>null\<close> is read.
\<close>

datatype error = UnknownTaxonChangeType | TypeError

text \<open>
  \<^verbatim>\<open>Array.prototype.indexOf\<close>: the first index of the value, or \<open>-1\<close>.
\<close>

fun indexOf :: "'a list \<Rightarrow> 'a \<Rightarrow> int" where
  "indexOf [] v = - 1"
| "indexOf (x # xs) v =
     (if x = v then 0 else (let r = indexOf xs v in if r = - 1 then - 1 else r + 1))"

section \<open>The taxonomy extractor\<close>

definition getTaxonomy :: "iNatTaxonAncestor list \<Rightarrow> string list \<Rightarrow> (string \<rightharpoonup> string)" where
  "getTaxonomy ancestors taxonsToReturn =
     foldl (\<lambda>acc curr.
              if indexOf taxonsToReturn (ancestor_rank curr) \<noteq> - 1
              then acc(ancestor_rank curr \<mapsto> ancestor_name curr) else acc)
       Map.empty ancestors"

section \<open>The taxon-change resolver\<close>

definition knownTaxonChangeTypes :: "string list" where
  "knownTaxonChangeTypes = [''TaxonSwap'', ''TaxonSplit'', ''TaxonMerge'']"

text \<open>
  The object pushed onto \<open>curatorObservations\<close> for an identification, and the
  object pushed onto \<open>taxonChangeData\<close> for an earlier identification of the curator.
  \<open>getFullYear d\<close> stands for \<^verbatim>\<open>new Date(d).getFullYear()\<close>.
\<close>

definition curatorObsEntry :: "identification \<Rightarrow> historicalCuratorObsIdentification" where
  "curatorObsEntry currIdentification =
     \<lparr>taxonId = taxon_id currIdentification,
      confirmationDate = created_at currIdentification,
      isTaxonChange = (taxon_change currIdentification \<noteq> None)\<rparr>"

definition taxonChangeEvent ::
  "(string \<Rightarrow> jsnum) \<Rightarrow> observation \<Rightarrow> identification \<Rightarrow> identification \<Rightarrow>
   taxonChange \<Rightarrow> taxonChangeDataRow"
where
  "taxonChangeEvent getFullYear obs currIdentification lastCuratorObservation lastChange =
     \<lparr>tcd_id = obs_id obs,
      previousSpeciesName = txn_name (taxon currIdentification),
      newSpeciesName = txn_name (taxon lastCuratorObservation),
      yearChanged = getFullYear (created_at lastCuratorObservation),
      taxonChangeId = change_id lastChange\<rparr>"

text \<open>
  The backward loop \<^verbatim>\<open>for (let i = curatorIdentificationIndex; i >= 0; i--)\<close>.
  The counter \<open>Suc i\<close> stands for the loop variable \<open>i\<close>; counter \<open>0\<close> is the exit.
  \<open>lastChange\<close> is \<^verbatim>\<open>lastCuratorObservation.taxon_change\<close>, whose \<^verbatim>\<open>.id\<close> is read.
  The loop's variables are \<open>lastCuratorObservation\<close>, \<open>curatorObservations\<close> and the
  caller's array \<open>taxonChangeData\<close>.
\<close>

fun walkBack ::
  "(string \<Rightarrow> jsnum) \<Rightarrow> observation \<Rightarrow> nat \<Rightarrow> string \<Rightarrow> nat \<Rightarrow> identification \<Rightarrow>
   historicalCuratorObsIdentification list \<Rightarrow> taxonChangeDataRow list \<Rightarrow>
   error + (historicalCuratorObsIdentification list \<times> taxonChangeDataRow list)"
where
  "walkBack getFullYear obs curatorIdentificationIndex targetCurator 0
     lastCuratorObservation curatorObservations taxonChangeData =
     Inr (curatorObservations, taxonChangeData)"
| "walkBack getFullYear obs curatorIdentificationIndex targetCurator (Suc i)
     lastCuratorObservation curatorObservations taxonChangeData =
     (let currIdentification = identifications obs ! i in
      if login (user currIdentification) \<noteq> targetCurator then
        walkBack getFullYear obs curatorIdentificationIndex targetCurator i
          lastCuratorObservation curatorObservations taxonChangeData
      else if i \<noteq> curatorIdentificationIndex then
        (case taxon_change lastCuratorObservation of
           None \<Rightarrow> Inl TypeError
         | Some lastChange \<Rightarrow>
             walkBack getFullYear obs curatorIdentificationIndex targetCurator i
               (if taxon_change currIdentification \<noteq> None then currIdentification
                else lastCuratorObservation)
               (curatorObservations @ [curatorObsEntry currIdentification])
               (taxonChangeData @
                 [taxonChangeEvent getFullYear obs currIdentification
                    lastCuratorObservation lastChange]))
      else
        walkBack getFullYear obs curatorIdentificationIndex targetCurator i
          lastCuratorObservation (curatorObservations @ [curatorObsEntry currIdentification])
          taxonChangeData)"

text \<open>
  The forward loop over \<open>curatorObservations\<close>, with its \<^verbatim>\<open>break\<close>. The result is
  \<open>deprecatedTaxonIds\<close> and \<open>originalConfirmationDate\<close>, which stays \<open>None\<close>
  (\<^verbatim>\<open>undefined\<close>) when the loop runs to the end.
\<close>

function findOriginal ::
  "historicalCuratorObsIdentification list \<Rightarrow> nat \<Rightarrow> int list \<Rightarrow> int list \<times> string option"
where
  "findOriginal curatorObservations i deprecated =
     (if i < length curatorObservations then
        (let deprecated' =
               (if i \<noteq> 0 then deprecated @ [taxonId (curatorObservations ! i)]
                else deprecated)
         in
         if \<not> isTaxonChange (curatorObservations ! i) then
           (deprecated', Some (confirmationDate (curatorObservations ! i)))
         else findOriginal curatorObservations (i + 1) deprecated')
      else (deprecated, None))"
  by pat_completeness auto
termination
  by (relation "measure (\<lambda>(cs, i, d). length cs - i)") auto

declare findOriginal.simps [simp del]

text \<open>
  \<^verbatim>\<open>getConfirmationDateAccountingForTaxonChanges\<close> of the generator
  (\<^verbatim>\<open>src/unnamed/part_000\<close>). It appends to the caller's \<open>taxonChangeData\<close>, so the
  model returns the array with the result. Reading \<^verbatim>\<open>.created_at\<close> of an
  identification that is not there throws.
\<close>

definition getConfirmationDateAccountingForTaxonChanges ::
  "(string \<Rightarrow> jsnum) \<Rightarrow> nat \<Rightarrow> observation \<Rightarrow> taxonChangeDataRow list \<Rightarrow>
   error + (confirmation \<times> taxonChangeDataRow list)"
where
  "getConfirmationDateAccountingForTaxonChanges getFullYear curatorIdentificationIndex obs
     taxonChangeData =
     (if length (identifications obs) \<le> curatorIdentificationIndex then Inl TypeError
      else
        let curatorIdentification = identifications obs ! curatorIdentificationIndex;
            curatorConfirmationDate = created_at curatorIdentification
        in
        case taxon_change curatorIdentification of
          None \<Rightarrow>
            Inr (\<lparr>deprecatedTaxonIds = [],
                  originalConfirmationDate = Some curatorConfirmationDate\<rparr>,
                 taxonChangeData)
        | Some change \<Rightarrow>
            if indexOf knownTaxonChangeTypes (change_type change) = - 1 then Inl UnknownTaxonChangeType
            else
              (case walkBack getFullYear obs curatorIdentificationIndex
                      (login (user curatorIdentification)) (Suc curatorIdentificationIndex)
                      curatorIdentification [] taxonChangeData of
                 Inl e \<Rightarrow> Inl e
               | Inr (curatorObservations, taxonChangeData') \<Rightarrow>
                   (case findOriginal curatorObservations 0 [] of
                      (deprecated, original) \<Rightarrow>
                        Inr (\<lparr>deprecatedTaxonIds = deprecated,
                              originalConfirmationDate = original\<rparr>,
                             taxonChangeData'))))"

text \<open>
  The same function in \<^verbatim>\<open>src/packages/tools/src/helpers.ts\<close>: no change events are
  recorded there, the rest is the same.
\<close>

fun walkBack_tools ::
  "observation \<Rightarrow> string \<Rightarrow> nat \<Rightarrow> historicalCuratorObsIdentification list \<Rightarrow>
   historicalCuratorObsIdentification list"
where
  "walkBack_tools obs targetCurator 0 curatorObservations = curatorObservations"
| "walkBack_tools obs targetCurator (Suc i) curatorObservations =
     (let currIdentification = identifications obs ! i in
      if login (user currIdentification) \<noteq> targetCurator then
        walkBack_tools obs targetCurator i curatorObservations
      else
        walkBack_tools obs targetCurator i
          (curatorObservations @ [curatorObsEntry currIdentification]))"

definition getConfirmationDateAccountingForTaxonChanges_tools ::
  "nat \<Rightarrow> observation \<Rightarrow> error + confirmation"
where
  "getConfirmationDateAccountingForTaxonChanges_tools curatorIdentificationIndex obs =
     (if length (identifications obs) \<le> curatorIdentificationIndex then Inl TypeError
      else
        let curatorIdentification = identifications obs ! curatorIdentificationIndex;
            curatorConfirmationDate = created_at curatorIdentification
        in
        case taxon_change curatorIdentification of
          None \<Rightarrow>
            Inr \<lparr>deprecatedTaxonIds = [],
                 originalConfirmationDate = Some curatorConfirmationDate\<rparr>
        | Some change \<Rightarrow>
            if indexOf knownTaxonChangeTypes (change_type change) = - 1 then Inl UnknownTaxonChangeType
            else
              (case findOriginal
                      (walkBack_tools obs (login (user curatorIdentification))
                         (Suc curatorIdentificationIndex) []) 0 [] of
                 (deprecated, original) \<Rightarrow>
                   Inr \<lparr>deprecatedTaxonIds = deprecated,
                        originalConfirmationDate = original\<rparr>))"

definition getUniqueItems :: "int list \<Rightarrow> int list" where
  "getUniqueItems arr =
     map fst (filter (\<lambda>(value, index). indexOf arr value = int index)
                (zip arr [0..<length arr]))"

section \<open>The observation scanner\<close>

record observationRecord =
  observationId :: int
  dateObserved :: "string option"
  observationCreatedAt :: string
  rec_confirmationDate :: "string option"
  confirmationDateUnix :: jsnum
  curator :: string
  observer :: iNatUser

record speciesEntry =
  speciesName :: "string option"
  observations :: "observationRecord list"
  taxonomy :: "(string \<rightharpoonup> string) option"

text \<open>
  The three arrays and objects that \<^verbatim>\<open>parseDataFiles\<close> creates and
  \<^verbatim>\<open>parseDataFile\<close> mutates.
\<close>

record parseState =
  processedData :: "int \<rightharpoonup> speciesEntry"
  taxonsToRemove :: "int list"
  taxonChangeData :: "taxonChangeDataRow list"

text \<open>
  The body of the identification loop of \<^verbatim>\<open>parseDataFile\<close> for an identification
  that passed the three filters (from \<^verbatim>\<open>isSubspeciesIdent\<close> to the \<^verbatim>\<open>break\<close>).
  It returns \<open>curatorTaxonId\<close> and the state. \<open>getTime d\<close> stands for
  \<^verbatim>\<open>new Date(d).getTime()\<close>; \<^verbatim>\<open>new Date(undefined).getTime()\<close> is \<^verbatim>\<open>NaN\<close>.
  Reading \<^verbatim>\<open>.id\<close> of the last ancestor throws when there is no ancestor.
\<close>

definition recordCuratorIdentification ::
  "(string \<Rightarrow> jsnum) \<Rightarrow> (string \<Rightarrow> jsnum) \<Rightarrow> string list \<Rightarrow> observation \<Rightarrow> nat \<Rightarrow>
   parseState \<Rightarrow> error + (int \<times> parseState)"
where
  "recordCuratorIdentification getFullYear getTime taxonsToReturn obs i st =
     (let ident = identifications obs ! i;
          isSubspeciesIdent = (txn_rank (taxon ident) = ''subspecies'');
          ancestors = txn_ancestors (taxon ident)
      in
      case (if isSubspeciesIdent then
              (if ancestors = [] then Inl TypeError
               else
                 let speciesAncestor = ancestors ! (length ancestors - 1)
                 in Inr (ancestor_id speciesAncestor, ancestor_name speciesAncestor))
            else Inr (txn_id (taxon ident), txn_name (taxon ident))) of
        Inl e \<Rightarrow> Inl e
      | Inr (curatorTaxonId, name) \<Rightarrow>
          let entry =
                (case processedData st curatorTaxonId of
                   None \<Rightarrow> \<lparr>speciesName = None, observations = [], taxonomy = None\<rparr>
                 | Some e \<Rightarrow> e)
          in
          (case getConfirmationDateAccountingForTaxonChanges getFullYear i obs
                  (taxonChangeData st) of
             Inl e \<Rightarrow> Inl e
           | Inr (result, taxonChangeData') \<Rightarrow>
               Inr (curatorTaxonId,
                 \<lparr>processedData = (processedData st)(curatorTaxonId \<mapsto>
                     \<lparr>speciesName = Some name,
                      observations = observations entry @
                        [\<lparr>observationId = obs_id obs,
                          dateObserved = observed_on_details obs,
                          observationCreatedAt = created_at_details obs,
                          rec_confirmationDate = originalConfirmationDate result,
                          confirmationDateUnix =
                            (case originalConfirmationDate result of
                               None \<Rightarrow> None | Some d \<Rightarrow> getTime d),
                          curator = login (user ident),
                          observer = obs_user obs\<rparr>],
                      taxonomy =
                        (case taxonomy entry of
                           None \<Rightarrow> Some (getTaxonomy ancestors taxonsToReturn)
                         | Some t \<Rightarrow> Some t)\<rparr>),
                  taxonsToRemove = taxonsToRemove st @ deprecatedTaxonIds result,
                  taxonChangeData = taxonChangeData'\<rparr>)))"

text \<open>
  The loop \<^verbatim>\<open>for (let i = 0; i < obs.identifications.length; i++)\<close> with its three
  \<^verbatim>\<open>continue\<close>s and its \<^verbatim>\<open>break\<close>. The result is \<open>curatorTaxonId\<close> (\<open>None\<close> for
  \<^verbatim>\<open>null\<close>) and the state.
\<close>

function scanIdentifications ::
  "(string \<Rightarrow> jsnum) \<Rightarrow> (string \<Rightarrow> jsnum) \<Rightarrow> string list \<Rightarrow> string list \<Rightarrow> observation \<Rightarrow>
   nat \<Rightarrow> parseState \<Rightarrow> error + (int option \<times> parseState)"
where
  "scanIdentifications getFullYear getTime curators taxonsToReturn obs i st =
     (if i < length (identifications obs) then
        if \<not> current (identifications obs ! i) then
          scanIdentifications getFullYear getTime curators taxonsToReturn obs (i + 1) st
        else if login (user (identifications obs ! i)) \<notin> set curators then
          scanIdentifications getFullYear getTime curators taxonsToReturn obs (i + 1) st
        else if txn_rank (taxon (identifications obs ! i)) \<noteq> ''species'' \<and>
                txn_rank (taxon (identifications obs ! i)) \<noteq> ''subspecies'' then
          scanIdentifications getFullYear getTime curators taxonsToReturn obs (i + 1) st
        else
          (case recordCuratorIdentification getFullYear getTime taxonsToReturn obs i st of
             Inl e \<Rightarrow> Inl e
           | Inr (curatorTaxonId, st') \<Rightarrow> Inr (Some curatorTaxonId, st'))
      else Inr (None, st))"
  by pat_completeness auto
termination
  by (relation "measure (\<lambda>(gy, gt, cs, ts, obs, i, st). length (identifications obs) - i)")
    auto

declare scanIdentifications.simps [simp del]

text \<open>
  The callback of \<^verbatim>\<open>content.results.forEach\<close>: the loop, then the deletion of an entry
  without observations. \<^verbatim>\<open>curatorTaxonId && ...\<close> is false for \<^verbatim>\<open>null\<close> and for \<open>0\<close>.
\<close>

definition parseObservation ::
  "(string \<Rightarrow> jsnum) \<Rightarrow> (string \<Rightarrow> jsnum) \<Rightarrow> string list \<Rightarrow> string list \<Rightarrow> observation \<Rightarrow>
   parseState \<Rightarrow> error + parseState"
where
  "parseObservation getFullYear getTime curators taxonsToReturn obs st =
     (case scanIdentifications getFullYear getTime curators taxonsToReturn obs 0 st of
        Inl e \<Rightarrow> Inl e
      | Inr (None, st') \<Rightarrow> Inr st'
      | Inr (Some curatorTaxonId, st') \<Rightarrow>
          if curatorTaxonId \<noteq> 0 then
            (case processedData st' curatorTaxonId of
               None \<Rightarrow> Inl TypeError
             | Some e \<Rightarrow>
                 if length (observations e) = 0
                 then Inr (st'\<lparr>processedData := (processedData st')(curatorTaxonId := None)\<rparr>)
                 else Inr st')
          else Inr st')"

text \<open>
  \<^verbatim>\<open>parseDataFile\<close>, given the \<^verbatim>\<open>results\<close> of the parsed file.
\<close>

fun parseDataFile ::
  "(string \<Rightarrow> jsnum) \<Rightarrow> (string \<Rightarrow> jsnum) \<Rightarrow> observation list \<Rightarrow> string list \<Rightarrow> string list \<Rightarrow>
   parseState \<Rightarrow> error + parseState"
where
  "parseDataFile getFullYear getTime [] curators taxonsToReturn st = Inr st"
| "parseDataFile getFullYear getTime (obs # results) curators taxonsToReturn st =
     (case parseObservation getFullYear getTime curators taxonsToReturn obs st of
        Inl e \<Rightarrow> Inl e
      | Inr st' \<Rightarrow> parseDataFile getFullYear getTime results curators taxonsToReturn st')"

section \<open>The aggregator\<close>

record ledgerEntry =
  le_newSpeciesName :: string
  le_taxonChangeId :: int

record parseResult =
  newAdditions :: "int \<rightharpoonup> speciesEntry"
  taxonChangeDataGroupedByYear :: "jsnum \<rightharpoonup> (string \<rightharpoonup> ledgerEntry)"

text \<open>
  The loop over the files \<^verbatim>\<open>packet-1.json\<close> to \<^verbatim>\<open>packet-numFiles.json\<close>; \<open>packets\<close>
  holds the \<^verbatim>\<open>results\<close> of each file, in that order, and \<open>taxons\<close> is the
  parameter \<^verbatim>\<open>taxon: Taxon[]\<close>.
\<close>

fun parsePackets ::
  "(string \<Rightarrow> jsnum) \<Rightarrow> (string \<Rightarrow> jsnum) \<Rightarrow> observation list list \<Rightarrow> string list \<Rightarrow>
   string list \<Rightarrow> parseState \<Rightarrow> error + parseState"
where
  "parsePackets getFullYear getTime [] curators taxons st = Inr st"
| "parsePackets getFullYear getTime (packet # packets) curators taxons st =
     (case parseDataFile getFullYear getTime packet curators taxons st of
        Inl e \<Rightarrow> Inl e
      | Inr st' \<Rightarrow> parsePackets getFullYear getTime packets curators taxons st')"

text \<open>
  The callback of \<^verbatim>\<open>taxonChangeData.forEach\<close>: the year's object is created when
  missing, and the row is stored only when the year has no entry for the previous name.
\<close>

definition groupRow ::
  "(jsnum \<rightharpoonup> (string \<rightharpoonup> ledgerEntry)) \<Rightarrow> taxonChangeDataRow \<Rightarrow>
   (jsnum \<rightharpoonup> (string \<rightharpoonup> ledgerEntry))"
where
  "groupRow grouped row =
     (let byName = (case grouped (yearChanged row) of None \<Rightarrow> Map.empty | Some m \<Rightarrow> m)
      in
      case byName (previousSpeciesName row) of
        None \<Rightarrow>
          grouped(yearChanged row \<mapsto>
            byName(previousSpeciesName row \<mapsto>
              \<lparr>le_newSpeciesName = newSpeciesName row,
               le_taxonChangeId = taxonChangeId row\<rparr>))
      | Some _ \<Rightarrow> grouped(yearChanged row \<mapsto> byName))"

definition parseDataFiles ::
  "(string \<Rightarrow> jsnum) \<Rightarrow> (string \<Rightarrow> jsnum) \<Rightarrow> observation list list \<Rightarrow> string list \<Rightarrow>
   string list \<Rightarrow> error + parseResult"
where
  "parseDataFiles getFullYear getTime packets curators taxons =
     (case parsePackets getFullYear getTime packets curators taxons
             \<lparr>processedData = Map.empty, taxonsToRemove = [], taxonChangeData = []\<rparr> of
        Inl e \<Rightarrow> Inl e
      | Inr st \<Rightarrow>
          Inr \<lparr>newAdditions =
                 foldl (\<lambda>m taxonId. m(taxonId := None)) (processedData st)
                   (getUniqueItems (taxonsToRemove st)),
               taxonChangeDataGroupedByYear =
                 foldl groupRow Map.empty (taxonChangeData st)\<rparr>)"

section \<open>Auxiliary definitions\<close>

text \<open>
  The change events as the specification words them, for a walk over the curator's earlier
  identifications \<open>cs\<close> (newest first) that starts with the ``last curator observation''
  \<open>l\<close>: one event per identification, named after \<open>l\<close>, and \<open>l\<close> moves to the
  identification when it carries a taxon change itself.
\<close>

fun eventsOver ::
  "(string \<Rightarrow> jsnum) \<Rightarrow> observation \<Rightarrow> identification \<Rightarrow> identification list \<Rightarrow>
   taxonChangeDataRow list"
where
  "eventsOver g obs l [] = []"
| "eventsOver g obs l (c # cs) =
     (case taxon_change l of
        None \<Rightarrow> []
      | Some lc \<Rightarrow>
          taxonChangeEvent g obs c l lc #
          eventsOver g obs (if taxon_change c \<noteq> None then c else l) cs)"

text \<open>
  The three filters of the identification loop of \<open>parseDataFile\<close>, the first index that
  passes them, and the species id and name the loop resolves for an identification (for a
  subspecies, those of the last ancestor).
\<close>

definition qualifies :: "string list \<Rightarrow> identification \<Rightarrow> bool" where
  "qualifies curators ident \<longleftrightarrow>
     current ident \<and> login (user ident) \<in> set curators \<and>
     (txn_rank (taxon ident) = ''species'' \<or> txn_rank (taxon ident) = ''subspecies'')"

definition firstQualifying :: "string list \<Rightarrow> observation \<Rightarrow> nat \<Rightarrow> bool" where
  "firstQualifying curators obs idx \<longleftrightarrow>
     idx < length (identifications obs) \<and>
     qualifies curators (identifications obs ! idx) \<and>
     (\<forall>j < idx. \<not> qualifies curators (identifications obs ! j))"

definition speciesOf :: "identification \<Rightarrow> int \<times> string" where
  "speciesOf ident =
     (if txn_rank (taxon ident) = ''subspecies''
      then (ancestor_id (last (txn_ancestors (taxon ident))),
            ancestor_name (last (txn_ancestors (taxon ident))))
      else (txn_id (taxon ident), txn_name (taxon ident)))"

section \<open>Example observations\<close>

text \<open>
  Small identification histories on which the theorems below are instantiated: the
  curator \<open>alice\<close>, the observer \<open>bob\<close>, species of the genus \<open>Aus\<close>, a calendar
  that knows the year and the epoch of three dates, an observation with one taxon swap
  (\<open>swapObs\<close>) and one with a chain of two (\<open>chainObs\<close>).
\<close>

definition exampleYear :: "string \<Rightarrow> jsnum" where
  "exampleYear d =
     map_of [(''2019-03-01'', 2019), (''2020-05-01'', 2020), (''2021-06-01'', 2021)] d"

definition alice :: iNatUser where
  "alice = \<lparr>login = ''alice'', user_name = ''Alice'', user_id = 1\<rparr>"

definition bob :: iNatUser where
  "bob = \<lparr>login = ''bob'', user_name = ''Bob'', user_id = 2\<rparr>"

definition speciesTaxon :: "int \<Rightarrow> string \<Rightarrow> iNatTaxon" where
  "speciesTaxon i n =
     \<lparr>txn_id = i, txn_name = n, txn_rank = ''species'',
      txn_ancestors = [\<lparr>ancestor_id = 10, ancestor_name = ''Aus'', ancestor_rank = ''genus''\<rparr>]\<rparr>"

definition identBy ::
  "iNatUser \<Rightarrow> iNatTaxon \<Rightarrow> bool \<Rightarrow> string \<Rightarrow> taxonChange option \<Rightarrow> identification" where
  "identBy u t c d ch =
     \<lparr>user = u, taxon = t, taxon_id = txn_id t, current = c, created_at = d, taxon_change = ch\<rparr>"

definition exampleObs :: "identification list \<Rightarrow> observation" where
  "exampleObs ids =
     \<lparr>obs_id = 500, observed_on_details = Some ''2019-02-27'',
      created_at_details = ''2019-02-28'', obs_user = bob, identifications = ids\<rparr>"

definition swap :: "int \<Rightarrow> taxonChange option" where
  "swap i = Some \<lparr>change_id = i, change_type = ''TaxonSwap''\<rparr>"

definition exampleTime :: "string \<Rightarrow> jsnum" where
  "exampleTime d =
     map_of [(''2019-03-01'', 1551398400000), (''2020-05-01'', 1588291200000),
             (''2021-06-01'', 1622505600000)] d"

definition emptyState :: parseState where
  "emptyState = \<lparr>processedData = Map.empty, taxonsToRemove = [], taxonChangeData = []\<rparr>"

definition busTaxon :: iNatTaxon where
  "busTaxon =
     \<lparr>txn_id = 100, txn_name = ''Bus bus'', txn_rank = ''species'',
      txn_ancestors = [\<lparr>ancestor_id = 11, ancestor_name = ''Bus'', ancestor_rank = ''genus''\<rparr>]\<rparr>"

definition exampleState :: parseState where
  "exampleState =
     \<lparr>processedData =
        [100 \<mapsto> \<lparr>speciesName = Some ''Aus bus'', observations = [],
                  taxonomy = Some [''genus'' \<mapsto> ''Aus'']\<rparr>],
      taxonsToRemove = [], taxonChangeData = []\<rparr>"



definition unknownChange :: "taxonChange option" where
  "unknownChange = Some \<lparr>change_id = 9, change_type = ''TaxonDrop''\<rparr>"


definition swapObs :: observation where
  "swapObs =
     exampleObs [identBy alice (speciesTaxon 100 ''Aus bus'') False ''2019-03-01'' None,
                 identBy bob (speciesTaxon 200 ''Aus cus'') True ''2020-05-01'' None,
                 identBy alice (speciesTaxon 200 ''Aus cus'') True ''2021-06-01'' (swap 7)]"

definition chainObs :: observation where
  "chainObs =
     exampleObs [identBy alice (speciesTaxon 100 ''Aus bus'') False ''2019-03-01'' None,
                 identBy alice (speciesTaxon 200 ''Aus cus'') False ''2020-05-01'' (swap 7),
                 identBy alice (speciesTaxon 300 ''Aus dus'') True ''2021-06-01'' (swap 8)]"

lemmas example_defs =
  exampleYear_def alice_def bob_def speciesTaxon_def identBy_def exampleObs_def swap_def

section \<open>Properties of the resolver\<close>

lemma indexOf_ge: "- 1 \<le> indexOf xs v"
  by (induction xs) (auto simp: Let_def)

lemma indexOf_absent: "indexOf xs v = - 1 \<longleftrightarrow> v \<notin> set xs"
proof (induction xs)
  case Nil
  show ?case by simp
next
  case (Cons x xs)
  have "indexOf xs v + 1 \<noteq> - 1" using indexOf_ge [of xs v] by arith
  with Cons show ?case by (auto simp: Let_def)
qed

lemma walkBack_tools_eq:
  "n \<le> length (identifications obs) \<Longrightarrow>
   walkBack_tools obs t n co =
     co @ map curatorObsEntry
            (filter (\<lambda>x. login (user x) = t) (rev (take n (identifications obs))))"
  by (induction n arbitrary: co) (auto simp: take_Suc_conv_app_nth Let_def)

lemma walkBack_below:
  "n \<le> length (identifications obs) \<Longrightarrow> n \<le> cii \<Longrightarrow> taxon_change l \<noteq> None \<Longrightarrow>
   walkBack g obs cii t n l co tcd =
     Inr (co @ map curatorObsEntry
                 (filter (\<lambda>x. login (user x) = t) (rev (take n (identifications obs)))),
          tcd @ eventsOver g obs l
                  (filter (\<lambda>x. login (user x) = t) (rev (take n (identifications obs)))))"
proof (induction n arbitrary: l co tcd)
  case 0
  then show ?case by simp
next
  case (Suc n)
  from Suc.prems obtain lc where lc: "taxon_change l = Some lc" by auto
  have tk: "take (Suc n) (identifications obs) =
            take n (identifications obs) @ [identifications obs ! n]"
    using Suc.prems by (simp add: take_Suc_conv_app_nth)
  have n: "n \<le> length (identifications obs)" "n \<le> cii" "n \<noteq> cii"
    using Suc.prems by auto
  show ?case
  proof (cases "login (user (identifications obs ! n)) = t")
    case False
    then show ?thesis using Suc.IH [OF n(1,2) Suc.prems(3)] tk by simp
  next
    case True
    let ?c = "identifications obs ! n"
    have l': "taxon_change (if taxon_change ?c \<noteq> None then ?c else l) \<noteq> None"
      using lc by auto
    show ?thesis using True Suc.IH [OF n(1,2) l'] tk lc n(3) by (simp add: Let_def)
  qed
qed

lemma walkBack_top:
  assumes "cii < length (identifications obs)"
    and "taxon_change (identifications obs ! cii) \<noteq> None"
  shows "walkBack g obs cii (login (user (identifications obs ! cii))) (Suc cii)
           (identifications obs ! cii) [] tcd =
         Inr (map curatorObsEntry
                (filter (\<lambda>x. login (user x) = login (user (identifications obs ! cii)))
                   (rev (take (Suc cii) (identifications obs)))),
              tcd @ eventsOver g obs (identifications obs ! cii)
                      (filter (\<lambda>x. login (user x) = login (user (identifications obs ! cii)))
                         (rev (take cii (identifications obs)))))"
  using assms
    walkBack_below [of cii obs cii "identifications obs ! cii" g
      "login (user (identifications obs ! cii))"
      "[curatorObsEntry (identifications obs ! cii)]" tcd]
  by (simp add: take_Suc_conv_app_nth Let_def)

lemma eventsOver_length:
  "taxon_change l \<noteq> None \<Longrightarrow> length (eventsOver g obs l cs) = length cs"
  by (induction cs arbitrary: l) auto

lemma eventsOver_nth:
  "taxon_change l \<noteq> None \<Longrightarrow> k < length cs \<Longrightarrow>
   \<exists>lc. taxon_change (last (filter (\<lambda>x. taxon_change x \<noteq> None) (l # take k cs))) = Some lc \<and>
     eventsOver g obs l cs ! k =
       taxonChangeEvent g obs (cs ! k)
         (last (filter (\<lambda>x. taxon_change x \<noteq> None) (l # take k cs))) lc"
proof (induction cs arbitrary: l k)
  case Nil
  then show ?case by simp
next
  case (Cons c cs)
  from Cons.prems obtain lc where lc: "taxon_change l = Some lc" by auto
  show ?case
  proof (cases k)
    case 0
    then show ?thesis using lc by simp
  next
    case (Suc k')
    let ?l' = "if taxon_change c \<noteq> None then c else l"
    have "taxon_change ?l' \<noteq> None" using lc by auto
    moreover have "k' < length cs" using Cons.prems Suc by simp
    ultimately obtain lc' where
      "taxon_change (last (filter (\<lambda>x. taxon_change x \<noteq> None) (?l' # take k' cs))) = Some lc' \<and>
       eventsOver g obs ?l' cs ! k' =
       taxonChangeEvent g obs (cs ! k')
         (last (filter (\<lambda>x. taxon_change x \<noteq> None) (?l' # take k' cs))) lc'"
      using Cons.IH [of ?l' k'] by blast
    then show ?thesis using Suc lc by (auto split: if_splits)
  qed
qed

lemma findOriginal_pos:
  "0 < i \<Longrightarrow> i \<le> length cs \<Longrightarrow>
   findOriginal cs i d =
     (d @ map taxonId (takeWhile isTaxonChange (drop i cs) @
                       take 1 (dropWhile isTaxonChange (drop i cs))),
      map_option confirmationDate (find (\<lambda>c. \<not> isTaxonChange c) (drop i cs)))"
proof (induction cs i d rule: findOriginal.induct)
  case (1 cs i d)
  show ?case
  proof (cases "i < length cs")
    case True
    then have dr: "drop i cs = cs ! i # drop (Suc i) cs" by (simp add: Cons_nth_drop_Suc)
    show ?thesis
    proof (cases "isTaxonChange (cs ! i)")
      case True
      with 1 \<open>i < length cs\<close> dr show ?thesis
        by (subst findOriginal.simps) (simp add: Let_def)
    next
      case False
      with 1 \<open>i < length cs\<close> dr show ?thesis
        by (subst findOriginal.simps) (simp add: Let_def)
    qed
  next
    case False
    with 1 show ?thesis by (subst findOriginal.simps) simp
  qed
qed

lemma findOriginal_0:
  "findOriginal cs 0 [] =
     (map taxonId (tl (takeWhile isTaxonChange cs @ take 1 (dropWhile isTaxonChange cs))),
      map_option confirmationDate (find (\<lambda>c. \<not> isTaxonChange c) cs))"
proof (cases cs)
  case Nil
  then show ?thesis by (subst findOriginal.simps) simp
next
  case (Cons c rest)
  show ?thesis
  proof (cases "isTaxonChange c")
    case True
    then show ?thesis using Cons findOriginal_pos [of 1 cs "[]"]
      by (subst findOriginal.simps) (simp add: Let_def)
  next
    case False
    then show ?thesis using Cons by (subst findOriginal.simps) (simp add: Let_def)
  qed
qed

lemma filter_rev_take_gap:
  "j < n \<Longrightarrow> n \<le> length xs \<Longrightarrow> P (xs ! j) \<Longrightarrow> (\<forall>k. j < k \<and> k < n \<longrightarrow> \<not> P (xs ! k)) \<Longrightarrow>
   filter P (rev (take n xs)) = xs ! j # filter P (rev (take j xs))"
proof (induction n)
  case 0
  then show ?case by simp
next
  case (Suc m)
  have tk: "take (Suc m) xs = take m xs @ [xs ! m]"
    using Suc.prems by (simp add: take_Suc_conv_app_nth)
  show ?case
  proof (cases "m = j")
    case True
    then show ?thesis using tk Suc.prems by simp
  next
    case False
    then have "j < m" "\<not> P (xs ! m)" using Suc.prems by auto
    then show ?thesis using tk Suc by simp
  qed
qed

lemma resolver_changed:
  assumes "cii < length (identifications obs)"
    and "taxon_change (identifications obs ! cii) = Some change"
    and "change_type change \<in> set knownTaxonChangeTypes"
  shows "getConfirmationDateAccountingForTaxonChanges g cii obs sink =
      Inr (\<lparr>deprecatedTaxonIds = fst (findOriginal (map curatorObsEntry
                (filter (\<lambda>x. login (user x) = login (user (identifications obs ! cii)))
                   (rev (take (Suc cii) (identifications obs))))) 0 []),
            originalConfirmationDate = snd (findOriginal (map curatorObsEntry
                (filter (\<lambda>x. login (user x) = login (user (identifications obs ! cii)))
                   (rev (take (Suc cii) (identifications obs))))) 0 [])\<rparr>,
           sink @ eventsOver g obs (identifications obs ! cii)
                      (filter (\<lambda>x. login (user x) = login (user (identifications obs ! cii)))
                         (rev (take cii (identifications obs)))))"
  using assms walkBack_top[of cii obs g sink]
  by (simp add: getConfirmationDateAccountingForTaxonChanges_def indexOf_absent Let_def split: prod.splits)

lemma resolver_tools_changed:
  assumes "cii < length (identifications obs)"
    and "taxon_change (identifications obs ! cii) = Some change"
    and "change_type change \<in> set knownTaxonChangeTypes"
  shows "getConfirmationDateAccountingForTaxonChanges_tools cii obs =
      Inr \<lparr>deprecatedTaxonIds = fst (findOriginal (map curatorObsEntry
                (filter (\<lambda>x. login (user x) = login (user (identifications obs ! cii)))
                   (rev (take (Suc cii) (identifications obs))))) 0 []),
            originalConfirmationDate = snd (findOriginal (map curatorObsEntry
                (filter (\<lambda>x. login (user x) = login (user (identifications obs ! cii)))
                   (rev (take (Suc cii) (identifications obs))))) 0 [])\<rparr>"
  using assms walkBack_tools_eq[of "Suc cii" obs "login (user (identifications obs ! cii))" "[]"]
  by (simp add: getConfirmationDateAccountingForTaxonChanges_tools_def indexOf_absent Let_def split: prod.splits)

text \<open>
  Claim C1. When the identification at a valid \<open>curatorIdentificationIndex\<close> carries a
  taxon change of a known type, let \<open>co\<close> be the curator's identifications from that index
  back to the start, newest first. Both versions of the resolver return as
  \<open>deprecatedTaxonIds\<close> the taxon ids of the entries of \<open>co\<close> after the first one, up to
  and including the first entry that is not a taxon change, and as
  \<open>originalConfirmationDate\<close> the date of that entry. When the curator's previous
  identification \<open>j\<close> is not a taxon change, the result is the single id
  \<open>taxon_id\<close> of \<open>j\<close> and the date \<open>created_at\<close> of \<open>j\<close>.
\<close>

theorem resolver_forward_scan:
  assumes "cii < length (identifications obs)"
    and "taxon_change (identifications obs ! cii) = Some change"
    and "change_type change \<in> set knownTaxonChangeTypes"
  shows
    "let ids = identifications obs;
         co = map curatorObsEntry
                (filter (\<lambda>x. login (user x) = login (user (ids ! cii))) (rev (take (Suc cii) ids)));
         expected =
           \<lparr>deprecatedTaxonIds =
              map taxonId (tl (takeWhile isTaxonChange co @ take 1 (dropWhile isTaxonChange co))),
            originalConfirmationDate =
              map_option confirmationDate (find (\<lambda>c. \<not> isTaxonChange c) co)\<rparr>
     in
       (\<exists>sink'. getConfirmationDateAccountingForTaxonChanges g cii obs sink =
                  Inr (expected, sink')) \<and>
       getConfirmationDateAccountingForTaxonChanges_tools cii obs = Inr expected \<and>
       (\<forall>j. j < cii \<and> login (user (ids ! j)) = login (user (ids ! cii)) \<and>
            taxon_change (ids ! j) = None \<and>
            (\<forall>k. j < k \<and> k < cii \<longrightarrow> login (user (ids ! k)) \<noteq> login (user (ids ! cii))) \<longrightarrow>
            expected = \<lparr>deprecatedTaxonIds = [taxon_id (ids ! j)],
                        originalConfirmationDate = Some (created_at (ids ! j))\<rparr>)"
proof -
  let ?ids = "identifications obs"
  let ?P = "\<lambda>x. login (user x) = login (user (?ids ! cii))"
  let ?co = "map curatorObsEntry (filter ?P (rev (take (Suc cii) ?ids)))"
  let ?exp = "\<lparr>deprecatedTaxonIds =
              map taxonId (tl (takeWhile isTaxonChange ?co @ take 1 (dropWhile isTaxonChange ?co))),
            originalConfirmationDate =
              map_option confirmationDate (find (\<lambda>c. \<not> isTaxonChange c) ?co)\<rparr>"
  have a: "\<exists>sink'. getConfirmationDateAccountingForTaxonChanges g cii obs sink = Inr (?exp, sink')"
    using resolver_changed[OF assms, of g sink] by (simp add: findOriginal_0)
  have b: "getConfirmationDateAccountingForTaxonChanges_tools cii obs = Inr ?exp"
    using resolver_tools_changed[OF assms] by (simp add: findOriginal_0)
  have c: "?exp = \<lparr>deprecatedTaxonIds = [taxon_id (?ids ! j)],
                        originalConfirmationDate = Some (created_at (?ids ! j))\<rparr>"
    if j: "j < cii" "?P (?ids ! j)" "taxon_change (?ids ! j) = None"
      "\<forall>k. j < k \<and> k < cii \<longrightarrow> \<not> ?P (?ids ! k)" for j
  proof -
    have "filter ?P (rev (take cii ?ids)) = ?ids ! j # filter ?P (rev (take j ?ids))"
      using filter_rev_take_gap[of j cii ?ids ?P] j assms(1) by simp
    then have "?co = curatorObsEntry (?ids ! cii) # curatorObsEntry (?ids ! j) #
                  map curatorObsEntry (filter ?P (rev (take j ?ids)))"
      using assms(1) by (simp add: take_Suc_conv_app_nth)
    then show ?thesis using j(3) assms(2) by (simp add: curatorObsEntry_def)
  qed
  show ?thesis unfolding Let_def using a b c by blast
qed

theorem resolver_forward_scan_witness:
  "let ids = identifications swapObs in
     2 < length ids \<and>
     taxon_change (ids ! 2) = Some \<lparr>change_id = 7, change_type = ''TaxonSwap''\<rparr> \<and>
     change_type \<lparr>change_id = 7, change_type = ''TaxonSwap''\<rparr> \<in> set knownTaxonChangeTypes \<and>
     (0 < (2::nat) \<and> login (user (ids ! 0)) = login (user (ids ! 2)) \<and>
      taxon_change (ids ! 0) = None \<and>
      (\<forall>k. 0 < k \<and> k < 2 \<longrightarrow> login (user (ids ! k)) \<noteq> login (user (ids ! 2)))) \<and>
     (\<exists>sink'. getConfirmationDateAccountingForTaxonChanges exampleYear 2 swapObs [] =
        Inr (\<lparr>deprecatedTaxonIds = [100], originalConfirmationDate = Some ''2019-03-01''\<rparr>,
             sink')) \<and>
     getConfirmationDateAccountingForTaxonChanges_tools 2 swapObs =
       Inr \<lparr>deprecatedTaxonIds = [100], originalConfirmationDate = Some ''2019-03-01''\<rparr>"
proof -
  let ?ids = "identifications swapObs"
  have h1: "2 < length ?ids" by (simp add: swapObs_def example_defs)
  have h2: "taxon_change (?ids ! 2) = Some \<lparr>change_id = 7, change_type = ''TaxonSwap''\<rparr>"
    by (simp add: swapObs_def example_defs)
  have h3: "change_type \<lparr>change_id = 7, change_type = ''TaxonSwap''\<rparr> \<in> set knownTaxonChangeTypes"
    by (simp add: knownTaxonChangeTypes_def)
  have hj: "0 < (2::nat) \<and> login (user (?ids ! 0)) = login (user (?ids ! 2)) \<and>
       taxon_change (?ids ! 0) = None \<and>
       (\<forall>k. 0 < k \<and> k < 2 \<longrightarrow> login (user (?ids ! k)) \<noteq> login (user (?ids ! 2)))"
  proof (intro conjI allI impI)
    fix k :: nat assume "0 < k \<and> k < 2"
    then have "k = 1" by arith
    then show "login (user (?ids ! k)) \<noteq> login (user (?ids ! 2))"
      by (simp add: swapObs_def example_defs)
  qed (simp_all add: swapObs_def example_defs)
  note inst = resolver_forward_scan [OF h1 h2 h3, of exampleYear "[]", unfolded Let_def]
  note single = inst [THEN conjunct2, THEN conjunct2, THEN spec, THEN mp, OF hj]
  have v: "taxon_id (?ids ! 0) = 100" "created_at (?ids ! 0) = ''2019-03-01''"
    by (simp_all add: swapObs_def example_defs)
  have a: "\<exists>sink'. getConfirmationDateAccountingForTaxonChanges exampleYear 2 swapObs [] =
        Inr (\<lparr>deprecatedTaxonIds = [100], originalConfirmationDate = Some ''2019-03-01''\<rparr>,
             sink')"
    using inst [THEN conjunct1] by (simp only: single v)
  have b: "getConfirmationDateAccountingForTaxonChanges_tools 2 swapObs =
        Inr \<lparr>deprecatedTaxonIds = [100], originalConfirmationDate = Some ''2019-03-01''\<rparr>"
    using inst [THEN conjunct2, THEN conjunct1] by (simp only: single v)
  show ?thesis unfolding Let_def using h1 h2 h3 hj a b by blast
qed

text \<open>
  Claim C3. When the identification at a valid \<open>curatorIdentificationIndex\<close> has no taxon
  change, both versions of the resolver return an empty \<open>deprecatedTaxonIds\<close> and the
  identification's own \<open>created_at\<close>, and \<open>taxonChangeData\<close> is returned as it was.
\<close>

theorem resolver_no_taxon_change:
  assumes "cii < length (identifications obs)"
    and "taxon_change (identifications obs ! cii) = None"
  shows "getConfirmationDateAccountingForTaxonChanges g cii obs sink =
           Inr (\<lparr>deprecatedTaxonIds = [],
                 originalConfirmationDate = Some (created_at (identifications obs ! cii))\<rparr>,
                sink) \<and>
         getConfirmationDateAccountingForTaxonChanges_tools cii obs =
           Inr \<lparr>deprecatedTaxonIds = [],
                originalConfirmationDate = Some (created_at (identifications obs ! cii))\<rparr>"
  using assms
  by (simp add: getConfirmationDateAccountingForTaxonChanges_def
      getConfirmationDateAccountingForTaxonChanges_tools_def)

theorem resolver_no_taxon_change_witness:
  "let obs = exampleObs [identBy alice (speciesTaxon 100 ''Aus bus'') True ''2019-03-01'' None]
   in 0 < length (identifications obs) \<and>
      taxon_change (identifications obs ! 0) = None \<and>
      getConfirmationDateAccountingForTaxonChanges exampleYear 0 obs [] =
        Inr (\<lparr>deprecatedTaxonIds = [], originalConfirmationDate = Some ''2019-03-01''\<rparr>, []) \<and>
      getConfirmationDateAccountingForTaxonChanges_tools 0 obs =
        Inr \<lparr>deprecatedTaxonIds = [], originalConfirmationDate = Some ''2019-03-01''\<rparr>"
  using resolver_no_taxon_change [of 0
     "exampleObs [identBy alice (speciesTaxon 100 ''Aus bus'') True ''2019-03-01'' None]"
     exampleYear "[]"]
  by (simp add: example_defs Let_def)

lemma find_all_changes:
  "\<forall>x \<in> set xs. taxon_change x \<noteq> None \<Longrightarrow>
   find (\<lambda>c. \<not> isTaxonChange c) (map curatorObsEntry xs) = None"
  by (induction xs) (auto simp: curatorObsEntry_def)

text \<open>
  Claim C4. When the identification at \<open>curatorIdentificationIndex\<close> carries a taxon
  change of a known type and every identification of the same curator up to that index
  carries a taxon change too, the resolver returns normally and
  \<open>originalConfirmationDate\<close> is \<open>None\<close>: it is never assigned.
\<close>

theorem resolver_unset_date:
  assumes "cii < length (identifications obs)"
    and "taxon_change (identifications obs ! cii) = Some change"
    and "change_type change \<in> set knownTaxonChangeTypes"
    and "\<forall>j \<le> cii. login (user (identifications obs ! j)) = login (user (identifications obs ! cii))
            \<longrightarrow> taxon_change (identifications obs ! j) \<noteq> None"
  shows "(\<exists>r sink'. getConfirmationDateAccountingForTaxonChanges g cii obs sink = Inr (r, sink') \<and>
            originalConfirmationDate r = None) \<and>
         (\<exists>r. getConfirmationDateAccountingForTaxonChanges_tools cii obs = Inr r \<and>
            originalConfirmationDate r = None)"
proof -
  let ?ids = "identifications obs"
  let ?P = "\<lambda>x. login (user x) = login (user (?ids ! cii))"
  have "\<forall>x \<in> set (filter ?P (rev (take (Suc cii) ?ids))). taxon_change x \<noteq> None"
  proof
    fix x assume "x \<in> set (filter ?P (rev (take (Suc cii) ?ids)))"
    then have x: "x \<in> set (take (Suc cii) ?ids)" "?P x" by auto
    then obtain j where "j < Suc cii" "j < length ?ids" "x = ?ids ! j"
      by (auto simp: in_set_conv_nth)
    then show "taxon_change x \<noteq> None" using assms(4) x(2) by auto
  qed
  then have f: "find (\<lambda>c. \<not> isTaxonChange c)
                 (map curatorObsEntry (filter ?P (rev (take (Suc cii) ?ids)))) = None"
    by (rule find_all_changes)
  show ?thesis
    using resolver_changed [OF assms(1-3), of g sink] resolver_tools_changed [OF assms(1-3)] f
    by (simp add: findOriginal_0)
qed

theorem resolver_unset_date_witness:
  "let obs = exampleObs [identBy alice (speciesTaxon 200 ''Aus cus'') False ''2020-05-01'' (swap 7),
                         identBy alice (speciesTaxon 300 ''Aus dus'') True ''2021-06-01'' (swap 8)]
   in 1 < length (identifications obs) \<and>
      taxon_change (identifications obs ! 1) = swap 8 \<and>
      ''TaxonSwap'' \<in> set knownTaxonChangeTypes \<and>
      (\<forall>j \<le> 1. login (user (identifications obs ! j)) = login (user (identifications obs ! 1))
            \<longrightarrow> taxon_change (identifications obs ! j) \<noteq> None) \<and>
      (\<exists>r sink'. getConfirmationDateAccountingForTaxonChanges exampleYear 1 obs [] = Inr (r, sink') \<and>
            originalConfirmationDate r = None) \<and>
      (\<exists>r. getConfirmationDateAccountingForTaxonChanges_tools 1 obs = Inr r \<and>
            originalConfirmationDate r = None)"
proof -
  let ?obs = "exampleObs [identBy alice (speciesTaxon 200 ''Aus cus'') False ''2020-05-01'' (swap 7),
                         identBy alice (speciesTaxon 300 ''Aus dus'') True ''2021-06-01'' (swap 8)]"
  have h1: "1 < length (identifications ?obs)" by (simp add: example_defs)
  have h2: "taxon_change (identifications ?obs ! 1) = Some \<lparr>change_id = 8, change_type = ''TaxonSwap''\<rparr>"
    by (simp add: example_defs)
  have h3: "change_type \<lparr>change_id = 8, change_type = ''TaxonSwap''\<rparr> \<in> set knownTaxonChangeTypes"
    by (simp add: knownTaxonChangeTypes_def)
  have h4: "\<forall>j \<le> 1. login (user (identifications ?obs ! j)) = login (user (identifications ?obs ! 1))
            \<longrightarrow> taxon_change (identifications ?obs ! j) \<noteq> None"
    by (simp add: example_defs le_Suc_eq)
  show ?thesis
    using resolver_unset_date [OF h1 h2 h3 h4, of exampleYear "[]"] h1 h2 h3 h4
    unfolding Let_def by (simp add: swap_def)
qed

lemma last_chain:
  "\<forall>j < length cs. taxon_change ((c # cs) ! j) \<noteq> None \<Longrightarrow> k < length cs \<Longrightarrow>
   last (filter (\<lambda>x. taxon_change x \<noteq> None) (c # take k cs)) = (c # cs) ! k"
proof (induction cs arbitrary: c k)
  case Nil
  then show ?case by simp
next
  case (Cons d ds)
  have c: "taxon_change c \<noteq> None" using Cons.prems(1) by auto
  show ?case
  proof (cases k)
    case 0
    then show ?thesis using c by simp
  next
    case (Suc k')
    then have k': "k' < length ds" using Cons.prems(2) by simp
    have "\<forall>j < length ds. taxon_change ((d # ds) ! j) \<noteq> None"
    proof (intro allI impI)
      fix j assume "j < length ds"
      then have "Suc j < length (d # ds)" by simp
      then have "taxon_change ((c # d # ds) ! Suc j) \<noteq> None" using Cons.prems(1) by blast
      then show "taxon_change ((d # ds) ! j) \<noteq> None" by simp
    qed
    then have ih: "last (filter (\<lambda>x. taxon_change x \<noteq> None) (d # take k' ds)) = (d # ds) ! k'"
      using k' by (rule Cons.IH)
    have d: "taxon_change d \<noteq> None" using Cons.prems(1) k' by force
    show ?thesis using ih c d Suc by simp
  qed
qed

text \<open>
  Claim C2. When the identification at a valid \<open>curatorIdentificationIndex\<close> carries a
  taxon change of a known type, the resolver appends to \<open>taxonChangeData\<close> exactly one
  event for each earlier identification of the same curator, in the order walked (newest
  first). The event for the \<open>k\<close>-th of them has that identification's taxon name as
  \<open>previousSpeciesName\<close>, and takes \<open>newSpeciesName\<close>, \<open>yearChanged\<close> and
  \<open>taxonChangeId\<close> from the ``last curator observation'' at that moment: the most recently
  walked identification carrying a taxon change, the starting one included. In a chain
  where each walked identification but possibly the oldest carries a taxon change, the
  \<open>k\<close>-th event pairs the \<open>k\<close>-th identification of the chain (the later one, which gives
  the new name, the year and the change id) with the next older one.
\<close>

theorem resolver_change_events:
  assumes "cii < length (identifications obs)"
    and "taxon_change (identifications obs ! cii) = Some change"
    and "change_type change \<in> set knownTaxonChangeTypes"
  shows
    "let ids = identifications obs;
         cur = ids ! cii;
         earlier = filter (\<lambda>x. login (user x) = login (user cur)) (rev (take cii ids));
         lastCuratorObservation =
           (\<lambda>k. last (filter (\<lambda>x. taxon_change x \<noteq> None) (cur # take k earlier)))
     in
       \<exists>r evs.
         getConfirmationDateAccountingForTaxonChanges g cii obs sink = Inr (r, sink @ evs) \<and>
         length evs = length earlier \<and>
         (\<forall>k < length earlier.
            \<exists>lastChange.
              taxon_change (lastCuratorObservation k) = Some lastChange \<and>
              evs ! k =
                \<lparr>tcd_id = obs_id obs,
                 previousSpeciesName = txn_name (taxon (earlier ! k)),
                 newSpeciesName = txn_name (taxon (lastCuratorObservation k)),
                 yearChanged = g (created_at (lastCuratorObservation k)),
                 taxonChangeId = change_id lastChange\<rparr>) \<and>
         ((\<forall>k < length earlier. taxon_change ((cur # earlier) ! k) \<noteq> None) \<longrightarrow>
          (\<forall>k < length earlier.
             \<exists>laterChange.
               taxon_change ((cur # earlier) ! k) = Some laterChange \<and>
               evs ! k =
                 \<lparr>tcd_id = obs_id obs,
                  previousSpeciesName = txn_name (taxon ((cur # earlier) ! Suc k)),
                  newSpeciesName = txn_name (taxon ((cur # earlier) ! k)),
                  yearChanged = g (created_at ((cur # earlier) ! k)),
                  taxonChangeId = change_id laterChange\<rparr>))"
proof -
  let ?ids = "identifications obs"
  let ?cur = "?ids ! cii"
  let ?earlier = "filter (\<lambda>x. login (user x) = login (user ?cur)) (rev (take cii ?ids))"
  let ?L = "\<lambda>k. last (filter (\<lambda>x. taxon_change x \<noteq> None) (?cur # take k ?earlier))"
  let ?evs = "eventsOver g obs ?cur ?earlier"
  have cur: "taxon_change ?cur \<noteq> None" using assms(2) by simp
  have a: "\<exists>r. getConfirmationDateAccountingForTaxonChanges g cii obs sink = Inr (r, sink @ ?evs)"
    using resolver_changed [OF assms, of g sink] by simp
  have b: "length ?evs = length ?earlier" using cur by (rule eventsOver_length)
  have c: "\<exists>lastChange.
              taxon_change (?L k) = Some lastChange \<and>
              ?evs ! k =
                \<lparr>tcd_id = obs_id obs,
                 previousSpeciesName = txn_name (taxon (?earlier ! k)),
                 newSpeciesName = txn_name (taxon (?L k)),
                 yearChanged = g (created_at (?L k)),
                 taxonChangeId = change_id lastChange\<rparr>" if "k < length ?earlier" for k
    using eventsOver_nth [OF cur that, of g obs] by (simp add: taxonChangeEvent_def)
  have d: "\<exists>laterChange.
               taxon_change ((?cur # ?earlier) ! k) = Some laterChange \<and>
               ?evs ! k =
                 \<lparr>tcd_id = obs_id obs,
                  previousSpeciesName = txn_name (taxon ((?cur # ?earlier) ! Suc k)),
                  newSpeciesName = txn_name (taxon ((?cur # ?earlier) ! k)),
                  yearChanged = g (created_at ((?cur # ?earlier) ! k)),
                  taxonChangeId = change_id laterChange\<rparr>"
    if ch: "\<forall>k < length ?earlier. taxon_change ((?cur # ?earlier) ! k) \<noteq> None"
      and k: "k < length ?earlier" for k
  proof -
    have "?L k = (?cur # ?earlier) ! k" using ch k by (rule last_chain)
    then show ?thesis using c [OF k] by (simp del: filter.simps)
  qed
  show ?thesis unfolding Let_def using a b c d by blast
qed

theorem resolver_change_events_witness:
  "let ids = identifications chainObs;
       earlier = filter (\<lambda>x. login (user x) = login (user (ids ! 2))) (rev (take 2 ids))
   in
     2 < length ids \<and>
     taxon_change (ids ! 2) = Some \<lparr>change_id = 8, change_type = ''TaxonSwap''\<rparr> \<and>
     change_type \<lparr>change_id = 8, change_type = ''TaxonSwap''\<rparr> \<in> set knownTaxonChangeTypes \<and>
     length earlier = 2 \<and>
     (\<forall>k < length earlier. taxon_change ((ids ! 2 # earlier) ! k) \<noteq> None) \<and>
     (\<exists>r. getConfirmationDateAccountingForTaxonChanges exampleYear 2 chainObs [] =
         Inr (r, [\<lparr>tcd_id = 500, previousSpeciesName = ''Aus cus'', newSpeciesName = ''Aus dus'',
                    yearChanged = Some 2021, taxonChangeId = 8\<rparr>,
                  \<lparr>tcd_id = 500, previousSpeciesName = ''Aus bus'', newSpeciesName = ''Aus cus'',
                    yearChanged = Some 2020, taxonChangeId = 7\<rparr>]))"
proof -
  let ?ids = "identifications chainObs"
  let ?earlier = "filter (\<lambda>x. login (user x) = login (user (?ids ! 2))) (rev (take 2 ?ids))"
  have h1: "2 < length ?ids" by (simp add: chainObs_def example_defs)
  have h2: "taxon_change (?ids ! 2) = Some \<lparr>change_id = 8, change_type = ''TaxonSwap''\<rparr>"
    by (simp add: chainObs_def example_defs)
  have h3: "change_type \<lparr>change_id = 8, change_type = ''TaxonSwap''\<rparr> \<in> set knownTaxonChangeTypes"
    by (simp add: knownTaxonChangeTypes_def)
  have len: "length ?earlier = 2"
    by (simp add: chainObs_def example_defs eval_nat_numeral)
  have chain: "\<forall>k < length ?earlier. taxon_change ((?ids ! 2 # ?earlier) ! k) \<noteq> None"
    by (simp add: chainObs_def example_defs eval_nat_numeral less_Suc_eq)
  have ev: "getConfirmationDateAccountingForTaxonChanges exampleYear 2 chainObs [] =
         Inr (\<lparr>deprecatedTaxonIds = [200, 100], originalConfirmationDate = Some ''2019-03-01''\<rparr>,
               [\<lparr>tcd_id = 500, previousSpeciesName = ''Aus cus'', newSpeciesName = ''Aus dus'',
                    yearChanged = Some 2021, taxonChangeId = 8\<rparr>,
                  \<lparr>tcd_id = 500, previousSpeciesName = ''Aus bus'', newSpeciesName = ''Aus cus'',
                    yearChanged = Some 2020, taxonChangeId = 7\<rparr>])"
    by (simp add: getConfirmationDateAccountingForTaxonChanges_def chainObs_def example_defs
        knownTaxonChangeTypes_def curatorObsEntry_def taxonChangeEvent_def Let_def
        eval_nat_numeral findOriginal.simps)
  have "\<exists>r evs. getConfirmationDateAccountingForTaxonChanges exampleYear 2 chainObs [] =
           Inr (r, [] @ evs) \<and> length evs = length ?earlier"
    using resolver_change_events [OF h1 h2 h3, of exampleYear "[]"]
    unfolding Let_def by (elim exE conjE) (intro exI conjI)
  then have "\<exists>r. getConfirmationDateAccountingForTaxonChanges exampleYear 2 chainObs [] =
         Inr (r, [\<lparr>tcd_id = 500, previousSpeciesName = ''Aus cus'', newSpeciesName = ''Aus dus'',
                    yearChanged = Some 2021, taxonChangeId = 8\<rparr>,
                  \<lparr>tcd_id = 500, previousSpeciesName = ''Aus bus'', newSpeciesName = ''Aus cus'',
                    yearChanged = Some 2020, taxonChangeId = 7\<rparr>])"
    using ev by simp
  then show ?thesis unfolding Let_def using h1 h2 h3 len chain by (intro conjI)
qed

section \<open>Properties of the scanner\<close>

lemma scan_step:
  "i < length (identifications obs) \<Longrightarrow> \<not> qualifies curators (identifications obs ! i) \<Longrightarrow>
   scanIdentifications g t curators ttr obs i st =
   scanIdentifications g t curators ttr obs (Suc i) st"
  by (subst scanIdentifications.simps) (auto simp: qualifies_def)

lemma scan_skip:
  "i \<le> idx \<Longrightarrow> idx \<le> length (identifications obs) \<Longrightarrow>
   \<forall>j. i \<le> j \<and> j < idx \<longrightarrow> \<not> qualifies curators (identifications obs ! j) \<Longrightarrow>
   scanIdentifications g t curators ttr obs i st =
   scanIdentifications g t curators ttr obs idx st"
proof (induction "idx - i" arbitrary: i)
  case 0
  then show ?case by simp
next
  case (Suc n)
  then have "i < length (identifications obs)" "\<not> qualifies curators (identifications obs ! i)"
    by auto
  then have "scanIdentifications g t curators ttr obs i st =
             scanIdentifications g t curators ttr obs (Suc i) st"
    by (rule scan_step)
  moreover have "scanIdentifications g t curators ttr obs (Suc i) st =
                 scanIdentifications g t curators ttr obs idx st"
    using Suc by (intro Suc.hyps(1)) auto
  ultimately show ?case by simp
qed

lemma scan_none:
  assumes "\<forall>j < length (identifications obs). \<not> qualifies curators (identifications obs ! j)"
  shows "scanIdentifications g t curators ttr obs 0 st = Inr (None, st)"
proof -
  have "scanIdentifications g t curators ttr obs 0 st =
        scanIdentifications g t curators ttr obs (length (identifications obs)) st"
    using assms by (intro scan_skip) auto
  then show ?thesis by (simp add: scanIdentifications.simps)
qed

lemma scan_first:
  assumes "firstQualifying curators obs idx"
  shows "scanIdentifications g t curators ttr obs 0 st =
         (case recordCuratorIdentification g t ttr obs idx st of
            Inl e \<Rightarrow> Inl e
          | Inr (curatorTaxonId, st') \<Rightarrow> Inr (Some curatorTaxonId, st'))"
proof -
  have "scanIdentifications g t curators ttr obs 0 st =
        scanIdentifications g t curators ttr obs idx st"
    using assms by (intro scan_skip) (auto simp: firstQualifying_def)
  also have "\<dots> = (case recordCuratorIdentification g t ttr obs idx st of
            Inl e \<Rightarrow> Inl e
          | Inr (curatorTaxonId, st') \<Rightarrow> Inr (Some curatorTaxonId, st'))"
    using assms by (subst scanIdentifications.simps) (auto simp: firstQualifying_def qualifies_def)
  finally show ?thesis .
qed

lemma resolver_total:
  assumes "cii < length (identifications obs)"
  shows "getConfirmationDateAccountingForTaxonChanges g cii obs sink =
           (case taxon_change (identifications obs ! cii) of
              None \<Rightarrow> Inr (\<lparr>deprecatedTaxonIds = [],
                 originalConfirmationDate = Some (created_at (identifications obs ! cii))\<rparr>, sink)
            | Some change \<Rightarrow>
                if change_type change \<in> set knownTaxonChangeTypes then
                  Inr (\<lparr>deprecatedTaxonIds = fst (findOriginal (map curatorObsEntry
                (filter (\<lambda>x. login (user x) = login (user (identifications obs ! cii)))
                   (rev (take (Suc cii) (identifications obs))))) 0 []),
            originalConfirmationDate = snd (findOriginal (map curatorObsEntry
                (filter (\<lambda>x. login (user x) = login (user (identifications obs ! cii)))
                   (rev (take (Suc cii) (identifications obs))))) 0 [])\<rparr>,
           sink @ eventsOver g obs (identifications obs ! cii)
                      (filter (\<lambda>x. login (user x) = login (user (identifications obs ! cii)))
                         (rev (take cii (identifications obs)))))
                else Inl UnknownTaxonChangeType)"
proof (cases "taxon_change (identifications obs ! cii)")
  case None
  then show ?thesis using assms by (simp add: getConfirmationDateAccountingForTaxonChanges_def)
next
  case (Some change)
  show ?thesis
  proof (cases "change_type change \<in> set knownTaxonChangeTypes")
    case True
    then show ?thesis using resolver_changed [OF assms Some True, of g sink] Some by simp
  next
    case False
    then show ?thesis using assms Some
      by (simp add: getConfirmationDateAccountingForTaxonChanges_def indexOf_absent)
  qed
qed

lemma record_entry:
  "recordCuratorIdentification g t ttr obs i st = Inr (k, st') \<Longrightarrow>
   \<exists>e. processedData st' k = Some e \<and> observations e \<noteq> []"
  by (auto simp: recordCuratorIdentification_def Let_def split: if_splits sum.splits prod.splits)

lemma parseObservation_none:
  assumes "\<forall>j < length (identifications obs). \<not> qualifies curators (identifications obs ! j)"
  shows "parseObservation g t curators ttr obs st = Inr st"
  using scan_none [OF assms] by (simp add: parseObservation_def)

lemma parseObservation_first:
  assumes "firstQualifying curators obs idx"
  shows "parseObservation g t curators ttr obs st =
         (case recordCuratorIdentification g t ttr obs idx st of
            Inl e \<Rightarrow> Inl e
          | Inr (curatorTaxonId, st') \<Rightarrow> Inr st')"
proof (cases "recordCuratorIdentification g t ttr obs idx st")
  case (Inl e)
  then show ?thesis using scan_first [OF assms, of g t ttr st] by (simp add: parseObservation_def)
next
  case (Inr p)
  obtain k st' where p: "p = (k, st')" by (cases p)
  from record_entry [of g t ttr obs idx st k st'] Inr p
  obtain e where "processedData st' k = Some e" "observations e \<noteq> []" by auto
  then show ?thesis using scan_first [OF assms, of g t ttr st] Inr p
    by (simp add: parseObservation_def)
qed


lemma record_error:
  assumes "i < length (identifications obs)"
  shows "recordCuratorIdentification g t ttr obs i st = Inl e \<longleftrightarrow>
     (if txn_rank (taxon (identifications obs ! i)) = ''subspecies'' \<and>
         txn_ancestors (taxon (identifications obs ! i)) = [] then e = TypeError
      else e = UnknownTaxonChangeType \<and>
        (\<exists>change. taxon_change (identifications obs ! i) = Some change \<and>
           change_type change \<notin> set knownTaxonChangeTypes))"
  using resolver_total [OF assms, of g "taxonChangeData st"]
  by (auto simp: recordCuratorIdentification_def Let_def split: option.splits if_splits)



section \<open>Properties of a whole file\<close>

lemma record_key:
  "recordCuratorIdentification g t ttr obs i st = Inr (k, st') \<Longrightarrow>
   k = fst (speciesOf (identifications obs ! i)) \<and>
   \<not> (txn_rank (taxon (identifications obs ! i)) = ''subspecies'' \<and>
      txn_ancestors (taxon (identifications obs ! i)) = [])"
  by (auto simp: recordCuratorIdentification_def speciesOf_def Let_def last_conv_nth
      split: if_splits sum.splits prod.splits)

lemma record_frame:
  "recordCuratorIdentification g t ttr obs i st = Inr (k, st') \<Longrightarrow> k' \<noteq> k \<Longrightarrow>
   processedData st' k' = processedData st k'"
  by (auto simp: recordCuratorIdentification_def Let_def
      split: if_splits sum.splits prod.splits)

lemma record_at_key:
  "recordCuratorIdentification g t ttr obs i st = Inr (k, st') \<Longrightarrow>
   \<exists>e'. processedData st' k = Some e' \<and>
     speciesName e' = Some (snd (speciesOf (identifications obs ! i))) \<and>
     taxonomy e' =
       (case processedData st k of
          None \<Rightarrow> Some (getTaxonomy (txn_ancestors (taxon (identifications obs ! i))) ttr)
        | Some e \<Rightarrow>
            (case taxonomy e of
               None \<Rightarrow> Some (getTaxonomy (txn_ancestors (taxon (identifications obs ! i))) ttr)
             | Some m \<Rightarrow> Some m))"
  by (auto simp: recordCuratorIdentification_def speciesOf_def Let_def last_conv_nth
      split: if_splits sum.splits prod.splits option.splits)

lemma record_collectors:
  "recordCuratorIdentification g t ttr obs i st = Inr (k, st') \<Longrightarrow>
   \<exists>r. getConfirmationDateAccountingForTaxonChanges g i obs (taxonChangeData st) =
          Inr (r, taxonChangeData st') \<and>
       taxonsToRemove st' = taxonsToRemove st @ deprecatedTaxonIds r"
  by (auto simp: recordCuratorIdentification_def Let_def
      split: if_splits sum.splits prod.splits)

lemma first_exists:
  assumes "\<not> (\<forall>j < length (identifications obs). \<not> qualifies curators (identifications obs ! j))"
  shows "\<exists>idx. firstQualifying curators obs idx"
proof -
  let ?Q = "\<lambda>j. j < length (identifications obs) \<and> qualifies curators (identifications obs ! j)"
  from assms have "\<exists>j. ?Q j" by blast
  then obtain idx where idx: "?Q idx" "\<forall>j < idx. \<not> ?Q j"
    using exists_least_iff [of ?Q] by blast
  then have "firstQualifying curators obs idx"
    by (auto simp: firstQualifying_def)
  then show ?thesis ..
qed

lemma first_unique:
  "firstQualifying curators obs i \<Longrightarrow> firstQualifying curators obs j \<Longrightarrow> i = j"
  by (metis firstQualifying_def linorder_neqE_nat)

lemma parseObservation_Inr:
  assumes "parseObservation g t curators ttr obs st = Inr st'"
  shows "(st' = st \<and>
          (\<forall>j < length (identifications obs). \<not> qualifies curators (identifications obs ! j))) \<or>
         (\<exists>idx k. firstQualifying curators obs idx \<and>
            recordCuratorIdentification g t ttr obs idx st = Inr (k, st'))"
proof (cases "\<forall>j < length (identifications obs). \<not> qualifies curators (identifications obs ! j)")
  case True
  then show ?thesis using assms parseObservation_none [OF True, of g t ttr st] by simp
next
  case False
  then obtain idx where fq: "firstQualifying curators obs idx" using first_exists by blast
  have "\<exists>k. recordCuratorIdentification g t ttr obs idx st = Inr (k, st')"
    using assms parseObservation_first [OF fq, of g t ttr st]
    by (auto split: sum.splits)
  then show ?thesis using fq by blast
qed

lemma parseDataFile_append:
  "parseDataFile g t (xs @ ys) curators ttr st =
     (case parseDataFile g t xs curators ttr st of
        Inl e \<Rightarrow> Inl e
      | Inr st1 \<Rightarrow> parseDataFile g t ys curators ttr st1)"
  by (induction xs arbitrary: st) (auto split: sum.splits)

lemma parsePackets_concat:
  "parsePackets g t packets curators ttr st = parseDataFile g t (concat packets) curators ttr st"
  by (induction packets arbitrary: st) (auto simp: parseDataFile_append split: sum.splits)

lemma parseObservation_frame:
  assumes "parseObservation g t curators ttr obs st = Inr st'"
    and "\<forall>idx. firstQualifying curators obs idx \<longrightarrow>
           fst (speciesOf (identifications obs ! idx)) \<noteq> k"
  shows "processedData st' k = processedData st k"
  using parseObservation_Inr [OF assms(1)] assms(2) record_key record_frame
  by (metis (no_types, lifting))

lemma parseObservation_taxonomy:
  assumes "parseObservation g t curators ttr obs st = Inr st'"
    and "processedData st k = Some e" and "taxonomy e = Some m"
  shows "\<exists>e'. processedData st' k = Some e' \<and> taxonomy e' = Some m"
proof -
  from parseObservation_Inr [OF assms(1)]
  consider "st' = st" |
    idx k' where "recordCuratorIdentification g t ttr obs idx st = Inr (k', st')"
    by blast
  then show ?thesis
  proof cases
    case 1
    then show ?thesis using assms by simp
  next
    case 2
    show ?thesis
    proof (cases "k = k'")
      case True
      then show ?thesis using record_at_key [OF 2] assms by auto
    next
      case False
      then show ?thesis using record_frame [OF 2, of k] assms by simp
    qed
  qed
qed

lemma parseDataFile_taxonomy:
  "parseDataFile g t results curators ttr st = Inr st' \<Longrightarrow>
   processedData st k = Some e \<Longrightarrow> taxonomy e = Some m \<Longrightarrow>
   \<exists>e'. processedData st' k = Some e' \<and> taxonomy e' = Some m"
proof (induction results arbitrary: st e)
  case Nil
  then show ?case by simp
next
  case (Cons obs results)
  from Cons.prems(1) obtain st1 where
    st1: "parseObservation g t curators ttr obs st = Inr st1"
      "parseDataFile g t results curators ttr st1 = Inr st'"
    by (auto split: sum.splits)
  from parseObservation_taxonomy [OF st1(1) Cons.prems(2,3)]
  obtain e1 where "processedData st1 k = Some e1" "taxonomy e1 = Some m" by blast
  then show ?case using Cons.IH [OF st1(2)] by blast
qed

lemma parseDataFile_frame:
  "parseDataFile g t results curators ttr st = Inr st' \<Longrightarrow>
   \<forall>obs \<in> set results. \<forall>idx. firstQualifying curators obs idx \<longrightarrow>
      fst (speciesOf (identifications obs ! idx)) \<noteq> k \<Longrightarrow>
   processedData st' k = processedData st k"
proof (induction results arbitrary: st)
  case Nil
  then show ?case by simp
next
  case (Cons obs results)
  from Cons.prems(1) obtain st1 where
    st1: "parseObservation g t curators ttr obs st = Inr st1"
      "parseDataFile g t results curators ttr st1 = Inr st'"
    by (auto split: sum.splits)
  have "processedData st1 k = processedData st k"
    using st1(1) Cons.prems(2) by (intro parseObservation_frame) auto
  moreover have "processedData st' k = processedData st1 k"
    using st1(2) Cons.prems(2) by (intro Cons.IH) auto
  ultimately show ?case by simp
qed

lemmas scanner_eval =
  parseObservation_def scanIdentifications.simps recordCuratorIdentification_def
  getConfirmationDateAccountingForTaxonChanges_def getTaxonomy_def knownTaxonChangeTypes_def
  Let_def

text \<open>
  Claim C10. When the first identification that passes the filters resolves to a species
  id that already has an entry, and the run does not stop there, \<open>parseObservation\<close>
  leaves the entry's \<open>taxonomy\<close> as it was when it was set (and computes it otherwise),
  and sets \<open>speciesName\<close> to the newly resolved name whatever it was before. Over a whole
  file: after an observation that resolves to a species id, followed only by observations
  that resolve to other ids or to none, the entry carries that observation's name; and a
  \<open>taxonomy\<close> that is set stays the same to the end of the file.
\<close>

theorem speciesName_overwritten_taxonomy_kept:
  "(firstQualifying curators obs idx \<and>
    processedData st (fst (speciesOf (identifications obs ! idx))) = Some e \<and>
    \<not> (txn_rank (taxon (identifications obs ! idx)) = ''subspecies'' \<and>
       txn_ancestors (taxon (identifications obs ! idx)) = []) \<and>
    \<not> (\<exists>change. taxon_change (identifications obs ! idx) = Some change \<and>
         change_type change \<notin> set knownTaxonChangeTypes) \<longrightarrow>
    (\<exists>st' e'.
       parseObservation g t curators ttr obs st = Inr st' \<and>
       processedData st' (fst (speciesOf (identifications obs ! idx))) = Some e' \<and>
       speciesName e' = Some (snd (speciesOf (identifications obs ! idx))) \<and>
       taxonomy e' =
         (case taxonomy e of
            None \<Rightarrow> Some (getTaxonomy (txn_ancestors (taxon (identifications obs ! idx))) ttr)
          | Some m \<Rightarrow> Some m))) \<and>
   (parseDataFile g t (before @ obs # after) curators ttr st0 = Inr st1 \<and>
    firstQualifying curators obs idx \<and>
    (\<forall>obs' \<in> set after. \<forall>idx'. firstQualifying curators obs' idx' \<longrightarrow>
       fst (speciesOf (identifications obs' ! idx')) \<noteq>
       fst (speciesOf (identifications obs ! idx))) \<longrightarrow>
    (\<exists>e1. processedData st1 (fst (speciesOf (identifications obs ! idx))) = Some e1 \<and>
       speciesName e1 = Some (snd (speciesOf (identifications obs ! idx))))) \<and>
   (parseDataFile g t results curators ttr st2 = Inr st3 \<and>
    processedData st2 k = Some e2 \<and> taxonomy e2 = Some m2 \<longrightarrow>
    (\<exists>e3. processedData st3 k = Some e3 \<and> taxonomy e3 = Some m2))"
proof (intro conjI impI)
  let ?ident = "identifications obs ! idx"
  let ?key = "fst (speciesOf ?ident)"
  assume h: "firstQualifying curators obs idx \<and>
    processedData st ?key = Some e \<and>
    \<not> (txn_rank (taxon ?ident) = ''subspecies'' \<and> txn_ancestors (taxon ?ident) = []) \<and>
    \<not> (\<exists>change. taxon_change ?ident = Some change \<and>
         change_type change \<notin> set knownTaxonChangeTypes)"
  then have idx: "idx < length (identifications obs)" by (simp add: firstQualifying_def)
  have noerr: "recordCuratorIdentification g t ttr obs idx st \<noteq> Inl err" for err
    using h record_error [OF idx, of g t ttr st err] by auto
  then obtain k st' where rec: "recordCuratorIdentification g t ttr obs idx st = Inr (k, st')"
    by (cases "recordCuratorIdentification g t ttr obs idx st") auto
  then have k: "k = ?key" using record_key by blast
  have po: "parseObservation g t curators ttr obs st = Inr st'"
    using h rec parseObservation_first [of curators obs idx g t ttr st] by simp
  from record_at_key [OF rec] k h
  have "\<exists>e'. processedData st' ?key = Some e' \<and>
       speciesName e' = Some (snd (speciesOf ?ident)) \<and>
       taxonomy e' =
         (case taxonomy e of
            None \<Rightarrow> Some (getTaxonomy (txn_ancestors (taxon ?ident)) ttr)
          | Some m \<Rightarrow> Some m)"
    by auto
  then show "\<exists>st' e'.
       parseObservation g t curators ttr obs st = Inr st' \<and>
       processedData st' ?key = Some e' \<and>
       speciesName e' = Some (snd (speciesOf ?ident)) \<and>
       taxonomy e' =
         (case taxonomy e of
            None \<Rightarrow> Some (getTaxonomy (txn_ancestors (taxon ?ident)) ttr)
          | Some m \<Rightarrow> Some m)"
    using po by blast
next
  let ?ident = "identifications obs ! idx"
  let ?key = "fst (speciesOf ?ident)"
  assume h: "parseDataFile g t (before @ obs # after) curators ttr st0 = Inr st1 \<and>
    firstQualifying curators obs idx \<and>
    (\<forall>obs' \<in> set after. \<forall>idx'. firstQualifying curators obs' idx' \<longrightarrow>
       fst (speciesOf (identifications obs' ! idx')) \<noteq> ?key)"
  then obtain sa sb where
    s: "parseDataFile g t before curators ttr st0 = Inr sa"
       "parseObservation g t curators ttr obs sa = Inr sb"
       "parseDataFile g t after curators ttr sb = Inr st1"
    by (auto simp: parseDataFile_append split: sum.splits)
  from h have fq: "firstQualifying curators obs idx" by simp
  obtain k where rec: "recordCuratorIdentification g t ttr obs idx sa = Inr (k, sb)"
    using s(2) parseObservation_first [OF fq, of g t ttr sa] by (auto split: sum.splits)
  then have k: "k = ?key" using record_key by blast
  from record_at_key [OF rec] k
  obtain e' where e': "processedData sb ?key = Some e'"
    "speciesName e' = Some (snd (speciesOf ?ident))" by auto
  have "processedData st1 ?key = processedData sb ?key"
    using s(3) h by (intro parseDataFile_frame) auto
  then show "\<exists>e1. processedData st1 ?key = Some e1 \<and>
       speciesName e1 = Some (snd (speciesOf ?ident))"
    using e' by simp
next
  assume "parseDataFile g t results curators ttr st2 = Inr st3 \<and>
    processedData st2 k = Some e2 \<and> taxonomy e2 = Some m2"
  then show "\<exists>e3. processedData st3 k = Some e3 \<and> taxonomy e3 = Some m2"
    using parseDataFile_taxonomy by blast
qed

theorem speciesName_overwritten_taxonomy_kept_witness:
  "let obs1 = exampleObs [identBy alice (speciesTaxon 100 ''Aus bus'') True ''2019-03-01'' None];
       obs2 = exampleObs [identBy alice busTaxon True ''2020-05-01'' None]
   in
     firstQualifying [''alice''] obs2 0 \<and>
     fst (speciesOf (identifications obs2 ! 0)) = 100 \<and>
     (\<exists>st' e'.
        parseObservation exampleYear exampleTime [''alice''] [''genus''] obs2 exampleState = Inr st' \<and>
        processedData st' 100 = Some e' \<and> speciesName e' = Some ''Bus bus'' \<and>
        taxonomy e' = Some [''genus'' \<mapsto> ''Aus'']) \<and>
     (\<exists>st1 e1.
        parseDataFile exampleYear exampleTime ([obs1] @ obs2 # []) [''alice''] [''genus'']
          emptyState = Inr st1 \<and>
        processedData st1 100 = Some e1 \<and> speciesName e1 = Some ''Bus bus'') \<and>
     (\<exists>st3 e3.
        parseDataFile exampleYear exampleTime [obs2] [''alice''] [''genus''] exampleState =
          Inr st3 \<and>
        processedData st3 100 = Some e3 \<and> taxonomy e3 = Some [''genus'' \<mapsto> ''Aus''])"
proof -
  let ?obs1 = "exampleObs [identBy alice (speciesTaxon 100 ''Aus bus'') True ''2019-03-01'' None]"
  let ?obs2 = "exampleObs [identBy alice busTaxon True ''2020-05-01'' None]"
  let ?e = "\<lparr>speciesName = Some ''Aus bus'', observations = [],
             taxonomy = Some [''genus'' \<mapsto> ''Aus'']\<rparr>"
  note inst = speciesName_overwritten_taxonomy_kept
    [of "[''alice'']" ?obs2 0 exampleState ?e exampleYear exampleTime "[''genus'']"
        "[?obs1]" "[]" emptyState _ "[?obs2]" exampleState _ 100 ?e "[''genus'' \<mapsto> ''Aus'']"]
  have fq: "firstQualifying [''alice''] ?obs2 0"
    by (simp add: example_defs busTaxon_def qualifies_def firstQualifying_def)
  have key: "fst (speciesOf (identifications ?obs2 ! 0)) = 100"
    by (simp add: example_defs busTaxon_def speciesOf_def)
  have h1: "firstQualifying [''alice''] ?obs2 0 \<and>
    processedData exampleState (fst (speciesOf (identifications ?obs2 ! 0))) = Some ?e \<and>
    \<not> (txn_rank (taxon (identifications ?obs2 ! 0)) = ''subspecies'' \<and>
       txn_ancestors (taxon (identifications ?obs2 ! 0)) = []) \<and>
    \<not> (\<exists>change. taxon_change (identifications ?obs2 ! 0) = Some change \<and>
         change_type change \<notin> set knownTaxonChangeTypes)"
    using fq key by (simp add: exampleState_def) (simp add: example_defs busTaxon_def)
  have c1: "\<exists>st' e'.
        parseObservation exampleYear exampleTime [''alice''] [''genus''] ?obs2 exampleState = Inr st' \<and>
        processedData st' 100 = Some e' \<and> speciesName e' = Some ''Bus bus'' \<and>
        taxonomy e' = Some [''genus'' \<mapsto> ''Aus'']"
    using inst [THEN conjunct1, THEN mp, OF h1] key
    by (simp add: speciesOf_def example_defs busTaxon_def)
  obtain st1 where st1: "parseDataFile exampleYear exampleTime ([?obs1] @ ?obs2 # [])
       [''alice''] [''genus''] emptyState = Inr st1"
    by (simp add: scanner_eval example_defs busTaxon_def emptyState_def)
  have h2: "parseDataFile exampleYear exampleTime ([?obs1] @ ?obs2 # [])
       [''alice''] [''genus''] emptyState = Inr st1 \<and>
    firstQualifying [''alice''] ?obs2 0 \<and>
    (\<forall>obs' \<in> set []. \<forall>idx'. firstQualifying [''alice''] obs' idx' \<longrightarrow>
       fst (speciesOf (identifications obs' ! idx')) \<noteq>
       fst (speciesOf (identifications ?obs2 ! 0)))"
    using st1 fq by simp
  have c2: "\<exists>st1 e1.
        parseDataFile exampleYear exampleTime ([?obs1] @ ?obs2 # []) [''alice''] [''genus'']
          emptyState = Inr st1 \<and>
        processedData st1 100 = Some e1 \<and> speciesName e1 = Some ''Bus bus''"
    using inst [THEN conjunct2, THEN conjunct1, THEN mp, OF h2] st1 key
    by (simp add: speciesOf_def example_defs busTaxon_def)
  obtain st3 where st3: "parseDataFile exampleYear exampleTime [?obs2]
       [''alice''] [''genus''] exampleState = Inr st3"
    by (simp add: scanner_eval example_defs busTaxon_def exampleState_def)
  have h3: "parseDataFile exampleYear exampleTime [?obs2]
       [''alice''] [''genus''] exampleState = Inr st3 \<and>
     processedData exampleState 100 = Some ?e \<and> taxonomy ?e = Some [''genus'' \<mapsto> ''Aus'']"
    using st3 by (simp add: exampleState_def)
  have c3: "\<exists>st3 e3.
        parseDataFile exampleYear exampleTime [?obs2] [''alice''] [''genus''] exampleState =
          Inr st3 \<and>
        processedData st3 100 = Some e3 \<and> taxonomy e3 = Some [''genus'' \<mapsto> ''Aus'']"
    using inst [THEN conjunct2, THEN conjunct2, THEN mp, OF h3] st3 by simp
  show ?thesis unfolding Let_def using fq key c1 c2 c3 by (intro conjI)
qed

section \<open>Properties of a whole run\<close>

lemma foldl_delete:
  "foldl (\<lambda>m taxonId. m(taxonId := None)) m xs k = (if k \<in> set xs then None else m k)"
  by (induction xs arbitrary: m) auto





lemma parseObservation_Inl:
  "parseObservation g t curators ttr obs st = Inl e \<longleftrightarrow>
     (\<exists>idx. firstQualifying curators obs idx \<and>
        (if txn_rank (taxon (identifications obs ! idx)) = ''subspecies'' \<and>
            txn_ancestors (taxon (identifications obs ! idx)) = [] then e = TypeError
         else e = UnknownTaxonChangeType \<and>
           (\<exists>change. taxon_change (identifications obs ! idx) = Some change \<and>
              change_type change \<notin> set knownTaxonChangeTypes)))"
proof (cases "\<forall>j < length (identifications obs). \<not> qualifies curators (identifications obs ! j)")
  case True
  then have "\<not> firstQualifying curators obs idx" for idx by (auto simp: firstQualifying_def)
  then show ?thesis using parseObservation_none [OF True, of g t ttr st] by simp
next
  case False
  then obtain idx where fq: "firstQualifying curators obs idx" using first_exists by blast
  then have idx: "idx < length (identifications obs)" by (simp add: firstQualifying_def)
  have "parseObservation g t curators ttr obs st = Inl e \<longleftrightarrow>
        recordCuratorIdentification g t ttr obs idx st = Inl e"
    using parseObservation_first [OF fq, of g t ttr st] by (auto split: sum.splits)
  also have "\<dots> \<longleftrightarrow>
     (if txn_rank (taxon (identifications obs ! idx)) = ''subspecies'' \<and>
            txn_ancestors (taxon (identifications obs ! idx)) = [] then e = TypeError
         else e = UnknownTaxonChangeType \<and>
           (\<exists>change. taxon_change (identifications obs ! idx) = Some change \<and>
              change_type change \<notin> set knownTaxonChangeTypes))"
    by (rule record_error [OF idx])
  finally show ?thesis using fq first_unique [OF fq] by metis
qed

lemma parseDataFile_stops:
  "obs \<in> set results \<Longrightarrow> \<forall>s. parseObservation g t curators ttr obs s = Inl e \<Longrightarrow>
   \<exists>e'. parseDataFile g t results curators ttr st = Inl e'"
proof (induction results arbitrary: st)
  case Nil
  then show ?case by simp
next
  case (Cons a results)
  show ?case
  proof (cases "parseObservation g t curators ttr a st")
    case (Inl e')
    then show ?thesis by simp
  next
    case (Inr st1)
    then have "obs \<noteq> a" using Cons.prems(2) by auto
    then have "obs \<in> set results" using Cons.prems(1) by simp
    then show ?thesis using Cons.IH [OF _ Cons.prems(2), of st1] Inr by simp
  qed
qed

lemma parseDataFile_error_origin:
  "parseDataFile g t results curators ttr st = Inl e \<Longrightarrow>
   \<exists>obs \<in> set results. \<exists>s. parseObservation g t curators ttr obs s = Inl e"
proof (induction results arbitrary: st)
  case Nil
  then show ?case by simp
next
  case (Cons a results)
  show ?case
  proof (cases "parseObservation g t curators ttr a st")
    case (Inl e')
    then have "e' = e" using Cons.prems by simp
    then show ?thesis using Inl by auto
  next
    case (Inr st1)
    then have "parseDataFile g t results curators ttr st1 = Inl e" using Cons.prems by simp
    then show ?thesis using Cons.IH by auto
  qed
qed

lemma parseDataFiles_Inl:
  "parseDataFiles g t packets curators taxons = Inl e \<longleftrightarrow>
   parseDataFile g t (concat packets) curators taxons
     \<lparr>processedData = Map.empty, taxonsToRemove = [], taxonChangeData = []\<rparr> = Inl e"
  by (simp add: parseDataFiles_def parsePackets_concat split: sum.splits)

lemma resolver_tools_total:
  assumes "cii < length (identifications obs)"
  shows "getConfirmationDateAccountingForTaxonChanges_tools cii obs =
           (case getConfirmationDateAccountingForTaxonChanges g cii obs sink of
              Inl e \<Rightarrow> Inl e | Inr (r, sink') \<Rightarrow> Inr r)"
proof (cases "taxon_change (identifications obs ! cii)")
  case None
  then show ?thesis using assms
    by (simp add: getConfirmationDateAccountingForTaxonChanges_def
        getConfirmationDateAccountingForTaxonChanges_tools_def)
next
  case (Some change)
  show ?thesis
  proof (cases "change_type change \<in> set knownTaxonChangeTypes")
    case True
    then show ?thesis
      using resolver_changed [OF assms Some True, of g sink]
        resolver_tools_changed [OF assms Some True] by simp
  next
    case False
    then show ?thesis using assms Some
      by (simp add: getConfirmationDateAccountingForTaxonChanges_def
        getConfirmationDateAccountingForTaxonChanges_tools_def indexOf_absent)
  qed
qed

text \<open>
  Claim C5. For a valid \<open>curatorIdentificationIndex\<close>, both versions of the resolver stop
  with the error ``unknown taxon change type'' exactly when the identification at the
  index carries a taxon change whose type is none of \<open>TaxonSwap\<close>, \<open>TaxonSplit\<close>,
  \<open>TaxonMerge\<close>; otherwise they return a result. When the first identification that passes
  the filters of some observation of the input carries such a change, \<open>parseDataFiles\<close>
  returns no result at all: the run stops, with this error unless a subspecies without
  ancestors stopped it with a \<open>TypeError\<close>.
\<close>

theorem unknown_change_type_fatal:
  "(cii < length (identifications obs) \<longrightarrow>
      (let unknown = (\<exists>change. taxon_change (identifications obs ! cii) = Some change \<and>
                        change_type change \<notin> set [''TaxonSwap'', ''TaxonSplit'', ''TaxonMerge''])
       in
       (getConfirmationDateAccountingForTaxonChanges g cii obs sink = Inl UnknownTaxonChangeType
          \<longleftrightarrow> unknown) \<and>
       (getConfirmationDateAccountingForTaxonChanges_tools cii obs = Inl UnknownTaxonChangeType
          \<longleftrightarrow> unknown) \<and>
       (\<not> unknown \<longrightarrow>
          (\<exists>r sink'. getConfirmationDateAccountingForTaxonChanges g cii obs sink = Inr (r, sink')) \<and>
          (\<exists>r. getConfirmationDateAccountingForTaxonChanges_tools cii obs = Inr r)))) \<and>
   (obs \<in> set (concat packets) \<and> firstQualifying curators obs idx \<and>
    (\<exists>change. taxon_change (identifications obs ! idx) = Some change \<and>
       change_type change \<notin> set [''TaxonSwap'', ''TaxonSplit'', ''TaxonMerge'']) \<longrightarrow>
      (\<exists>e. parseDataFiles g t packets curators taxons = Inl e) \<and>
      ((\<forall>obs' \<in> set (concat packets). \<forall>i. firstQualifying curators obs' i \<longrightarrow>
          \<not> (txn_rank (taxon (identifications obs' ! i)) = ''subspecies'' \<and>
             txn_ancestors (taxon (identifications obs' ! i)) = [])) \<longrightarrow>
       parseDataFiles g t packets curators taxons = Inl UnknownTaxonChangeType))"
proof (intro conjI impI)
  assume cii: "cii < length (identifications obs)"
  let ?unknown = "\<exists>change. taxon_change (identifications obs ! cii) = Some change \<and>
                        change_type change \<notin> set [''TaxonSwap'', ''TaxonSplit'', ''TaxonMerge'']"
  have a: "getConfirmationDateAccountingForTaxonChanges g cii obs sink = Inl UnknownTaxonChangeType
          \<longleftrightarrow> ?unknown"
    using resolver_total [OF cii, of g sink]
    by (auto simp: knownTaxonChangeTypes_def split: option.splits if_splits)
  have c: "\<exists>r sink'. getConfirmationDateAccountingForTaxonChanges g cii obs sink = Inr (r, sink')"
    if "\<not> ?unknown"
    using that resolver_total [OF cii, of g sink]
    by (auto simp: knownTaxonChangeTypes_def split: option.splits if_splits)
  have b: "getConfirmationDateAccountingForTaxonChanges_tools cii obs = Inl UnknownTaxonChangeType
          \<longleftrightarrow> ?unknown"
    using a resolver_tools_total [OF cii, of g sink] by (auto split: sum.splits)
  have d: "\<exists>r. getConfirmationDateAccountingForTaxonChanges_tools cii obs = Inr r"
    if "\<not> ?unknown"
    using c [OF that] resolver_tools_total [OF cii, of g sink] by auto
  show "let unknown = ?unknown in
       (getConfirmationDateAccountingForTaxonChanges g cii obs sink = Inl UnknownTaxonChangeType
          \<longleftrightarrow> unknown) \<and>
       (getConfirmationDateAccountingForTaxonChanges_tools cii obs = Inl UnknownTaxonChangeType
          \<longleftrightarrow> unknown) \<and>
       (\<not> unknown \<longrightarrow>
          (\<exists>r sink'. getConfirmationDateAccountingForTaxonChanges g cii obs sink = Inr (r, sink')) \<and>
          (\<exists>r. getConfirmationDateAccountingForTaxonChanges_tools cii obs = Inr r))"
    unfolding Let_def using a b c d by blast
next
  assume h: "obs \<in> set (concat packets) \<and> firstQualifying curators obs idx \<and>
    (\<exists>change. taxon_change (identifications obs ! idx) = Some change \<and>
       change_type change \<notin> set [''TaxonSwap'', ''TaxonSplit'', ''TaxonMerge''])"
  let ?e = "if txn_rank (taxon (identifications obs ! idx)) = ''subspecies'' \<and>
            txn_ancestors (taxon (identifications obs ! idx)) = [] then TypeError
            else UnknownTaxonChangeType"
  have "\<forall>s. parseObservation g t curators taxons obs s = Inl ?e"
    using h by (auto simp: parseObservation_Inl knownTaxonChangeTypes_def)
  then have "\<exists>e'. parseDataFile g t (concat packets) curators taxons
     \<lparr>processedData = Map.empty, taxonsToRemove = [], taxonChangeData = []\<rparr> = Inl e'"
    using h by (intro parseDataFile_stops [of obs]) auto
  then show "\<exists>e. parseDataFiles g t packets curators taxons = Inl e"
    by (simp add: parseDataFiles_Inl)
next
  assume h: "obs \<in> set (concat packets) \<and> firstQualifying curators obs idx \<and>
    (\<exists>change. taxon_change (identifications obs ! idx) = Some change \<and>
       change_type change \<notin> set [''TaxonSwap'', ''TaxonSplit'', ''TaxonMerge''])"
    and na: "\<forall>obs' \<in> set (concat packets). \<forall>i. firstQualifying curators obs' i \<longrightarrow>
          \<not> (txn_rank (taxon (identifications obs' ! i)) = ''subspecies'' \<and>
             txn_ancestors (taxon (identifications obs' ! i)) = [])"
  have "\<forall>s. parseObservation g t curators taxons obs s = Inl UnknownTaxonChangeType"
    using h na by (auto simp: parseObservation_Inl knownTaxonChangeTypes_def)
  then have "\<exists>e'. parseDataFile g t (concat packets) curators taxons
     \<lparr>processedData = Map.empty, taxonsToRemove = [], taxonChangeData = []\<rparr> = Inl e'"
    using h by (intro parseDataFile_stops [of obs]) auto
  then obtain e' where e': "parseDataFile g t (concat packets) curators taxons
     \<lparr>processedData = Map.empty, taxonsToRemove = [], taxonChangeData = []\<rparr> = Inl e'" ..
  from parseDataFile_error_origin [OF e']
  obtain obs' s where o: "obs' \<in> set (concat packets)"
    "parseObservation g t curators taxons obs' s = Inl e'" by blast
  then have "e' = UnknownTaxonChangeType"
    using na by (auto simp: parseObservation_Inl split: if_splits)
  then show "parseDataFiles g t packets curators taxons = Inl UnknownTaxonChangeType"
    using e' by (simp add: parseDataFiles_Inl)
qed

theorem unknown_change_type_fatal_witness:
  "let good = exampleObs [identBy alice (speciesTaxon 100 ''Aus bus'') True ''2019-03-01'' None];
       bad = exampleObs [identBy alice (speciesTaxon 200 ''Aus cus'') True ''2020-05-01''
                           unknownChange]
   in
     0 < length (identifications bad) \<and>
     (\<exists>change. taxon_change (identifications bad ! 0) = Some change \<and>
        change_type change \<notin> set [''TaxonSwap'', ''TaxonSplit'', ''TaxonMerge'']) \<and>
     getConfirmationDateAccountingForTaxonChanges exampleYear 0 bad [] =
       Inl UnknownTaxonChangeType \<and>
     getConfirmationDateAccountingForTaxonChanges_tools 0 bad = Inl UnknownTaxonChangeType \<and>
     bad \<in> set (concat [[good], [bad]]) \<and> firstQualifying [''alice''] bad 0 \<and>
     (\<forall>obs' \<in> set (concat [[good], [bad]]). \<forall>i. firstQualifying [''alice''] obs' i \<longrightarrow>
          \<not> (txn_rank (taxon (identifications obs' ! i)) = ''subspecies'' \<and>
             txn_ancestors (taxon (identifications obs' ! i)) = [])) \<and>
     parseDataFiles exampleYear exampleTime [[good], [bad]] [''alice''] [''genus''] =
       Inl UnknownTaxonChangeType"
proof -
  let ?good = "exampleObs [identBy alice (speciesTaxon 100 ''Aus bus'') True ''2019-03-01'' None]"
  let ?bad = "exampleObs [identBy alice (speciesTaxon 200 ''Aus cus'') True ''2020-05-01''
                           unknownChange]"
  note inst = unknown_change_type_fatal
    [of 0 ?bad exampleYear "[]" "[[?good], [?bad]]" "[''alice'']" 0 exampleTime "[''genus'']"]
  have len: "0 < length (identifications ?bad)" by (simp add: example_defs)
  have unk: "\<exists>change. taxon_change (identifications ?bad ! 0) = Some change \<and>
        change_type change \<notin> set [''TaxonSwap'', ''TaxonSplit'', ''TaxonMerge'']"
    by (simp add: example_defs unknownChange_def)
  have r: "getConfirmationDateAccountingForTaxonChanges exampleYear 0 ?bad [] =
       Inl UnknownTaxonChangeType \<and>
     getConfirmationDateAccountingForTaxonChanges_tools 0 ?bad = Inl UnknownTaxonChangeType"
    using inst [THEN conjunct1, THEN mp, OF len] unk unfolding Let_def by blast
  have mem: "?bad \<in> set (concat [[?good], [?bad]])" by simp
  have fq: "firstQualifying [''alice''] ?bad 0"
    by (simp add: example_defs qualifies_def firstQualifying_def)
  have na: "\<forall>obs' \<in> set (concat [[?good], [?bad]]). \<forall>i. firstQualifying [''alice''] obs' i \<longrightarrow>
          \<not> (txn_rank (taxon (identifications obs' ! i)) = ''subspecies'' \<and>
             txn_ancestors (taxon (identifications obs' ! i)) = [])"
    by (auto simp: example_defs firstQualifying_def)
  have p: "parseDataFiles exampleYear exampleTime [[?good], [?bad]] [''alice''] [''genus''] =
       Inl UnknownTaxonChangeType"
    using inst [THEN conjunct2, THEN mp, OF conjI [OF mem conjI [OF fq unk]],
        THEN conjunct2, THEN mp, OF na] .
  show ?thesis unfolding Let_def using len unk r mem fq na p by (intro conjI) auto
qed

lemma indexOf_less: "v \<in> set xs \<Longrightarrow> 0 \<le> indexOf xs v \<and> indexOf xs v < int (length xs)"
proof (induction xs)
  case Nil
  then show ?case by simp
next
  case (Cons x xs)
  show ?case
  proof (cases "x = v")
    case True
    then show ?thesis by simp
  next
    case False
    then have "v \<in> set xs" using Cons.prems by simp
    then show ?thesis using Cons.IH False by (auto simp: Let_def)
  qed
qed

lemma indexOf_append_in: "v \<in> set xs \<Longrightarrow> indexOf (xs @ ys) v = indexOf xs v"
proof (induction xs)
  case Nil
  then show ?case by simp
next
  case (Cons x xs)
  show ?case
  proof (cases "x = v")
    case True
    then show ?thesis by simp
  next
    case False
    then have "v \<in> set xs" using Cons.prems by simp
    then show ?thesis using Cons.IH False by (simp add: Let_def)
  qed
qed

lemma indexOf_snoc_new: "v \<notin> set xs \<Longrightarrow> indexOf (xs @ [v]) v = int (length xs)"
proof (induction xs)
  case Nil
  then show ?case by simp
next
  case (Cons x xs)
  then have "indexOf (xs @ [v]) v = int (length xs)" by simp
  moreover have "x \<noteq> v" using Cons.prems by auto
  ultimately show ?case by (simp add: Let_def)
qed

lemma getUniqueItems_snoc:
  "getUniqueItems (xs @ [x]) =
     (if x \<in> set xs then getUniqueItems xs else getUniqueItems xs @ [x])"
proof -
  let ?n = "length xs"
  have z: "zip (xs @ [x]) [0..<length (xs @ [x])] = zip xs [0..<?n] @ [(x, ?n)]"
    by simp
  have same: "filter (\<lambda>(value, index). indexOf (xs @ [x]) value = int index) (zip xs [0..<?n]) =
              filter (\<lambda>(value, index). indexOf xs value = int index) (zip xs [0..<?n])"
  proof (rule filter_cong [OF refl])
    fix p assume "p \<in> set (zip xs [0..<?n])"
    then have "fst p \<in> set xs" using set_zip_leftD [of "fst p" "snd p" xs "[0..<?n]"] by simp
    then show "(case p of (value, index) \<Rightarrow> indexOf (xs @ [x]) value = int index) =
               (case p of (value, index) \<Rightarrow> indexOf xs value = int index)"
      by (cases p) (simp add: indexOf_append_in)
  qed
  have lastp: "indexOf (xs @ [x]) x = int ?n \<longleftrightarrow> x \<notin> set xs"
  proof (cases "x \<in> set xs")
    case True
    then show ?thesis using indexOf_less [OF True] by (simp add: indexOf_append_in)
  next
    case False
    then show ?thesis by (simp add: indexOf_snoc_new)
  qed
  show ?thesis
    unfolding getUniqueItems_def z filter_append map_append same
    using lastp by simp
qed

lemma getUniqueItems_Nil: "getUniqueItems [] = []"
  by (simp add: getUniqueItems_def)

lemma getUniqueItems_set: "set (getUniqueItems arr) = set arr"
  by (induction arr rule: rev_induct) (auto simp: getUniqueItems_Nil getUniqueItems_snoc)

lemma getUniqueItems_distinct: "distinct (getUniqueItems arr)"
  by (induction arr rule: rev_induct)
    (auto simp: getUniqueItems_Nil getUniqueItems_snoc getUniqueItems_set)

lemma resolver_result_sink:
  assumes "getConfirmationDateAccountingForTaxonChanges g i obs s1 = Inr (r1, s1')"
    and "getConfirmationDateAccountingForTaxonChanges g i obs s2 = Inr (r2, s2')"
  shows "r1 = r2"
proof -
  have i: "i < length (identifications obs)"
    using assms(1) by (auto simp: getConfirmationDateAccountingForTaxonChanges_def split: if_splits)
  show ?thesis
    using assms resolver_total [OF i, of g s1] resolver_total [OF i, of g s2]
    by (auto split: option.splits if_splits)
qed

lemma parseObservation_removals:
  assumes "parseObservation g t curators ttr obs st = Inr st'"
  shows "set (taxonsToRemove st) \<subseteq> set (taxonsToRemove st') \<and>
         (\<forall>idx r sink sink'. firstQualifying curators obs idx \<and>
            getConfirmationDateAccountingForTaxonChanges g idx obs sink = Inr (r, sink') \<longrightarrow>
            set (deprecatedTaxonIds r) \<subseteq> set (taxonsToRemove st'))"
proof -
  from parseObservation_Inr [OF assms]
  consider "st' = st"
      "\<forall>j < length (identifications obs). \<not> qualifies curators (identifications obs ! j)" |
    idx k where "firstQualifying curators obs idx"
      "recordCuratorIdentification g t ttr obs idx st = Inr (k, st')"
    by blast
  then show ?thesis
  proof cases
    case 1
    then have "\<not> firstQualifying curators obs idx" for idx by (auto simp: firstQualifying_def)
    then show ?thesis using 1 by simp
  next
    case 2
    from record_collectors [OF 2(2)] obtain r0 where
      r0: "getConfirmationDateAccountingForTaxonChanges g idx obs (taxonChangeData st) =
             Inr (r0, taxonChangeData st')"
        "taxonsToRemove st' = taxonsToRemove st @ deprecatedTaxonIds r0"
      by blast
    have "set (deprecatedTaxonIds r) \<subseteq> set (taxonsToRemove st')"
      if "firstQualifying curators obs idx'"
        "getConfirmationDateAccountingForTaxonChanges g idx' obs sink = Inr (r, sink')"
      for idx' r sink sink'
    proof -
      have "idx' = idx" using that(1) 2(1) by (rule first_unique)
      then have "r = r0" using that(2) r0(1) resolver_result_sink by blast
      then show ?thesis using r0(2) by simp
    qed
    moreover have "set (taxonsToRemove st) \<subseteq> set (taxonsToRemove st')" using r0(2) by simp
    ultimately show ?thesis by blast
  qed
qed

lemma parseDataFile_removals:
  "parseDataFile g t results curators ttr st = Inr st' \<Longrightarrow>
   set (taxonsToRemove st) \<subseteq> set (taxonsToRemove st') \<and>
   (\<forall>obs \<in> set results. \<forall>idx r sink sink'. firstQualifying curators obs idx \<and>
      getConfirmationDateAccountingForTaxonChanges g idx obs sink = Inr (r, sink') \<longrightarrow>
      set (deprecatedTaxonIds r) \<subseteq> set (taxonsToRemove st'))"
proof (induction results arbitrary: st)
  case Nil
  then show ?case by simp
next
  case (Cons obs results)
  from Cons.prems obtain st1 where
    st1: "parseObservation g t curators ttr obs st = Inr st1"
      "parseDataFile g t results curators ttr st1 = Inr st'"
    by (auto split: sum.splits)
  note a = parseObservation_removals [OF st1(1)]
  note b = Cons.IH [OF st1(2)]
  have mono: "set (taxonsToRemove st1) \<subseteq> set (taxonsToRemove st')" using b by simp
  have "set (deprecatedTaxonIds r) \<subseteq> set (taxonsToRemove st')"
    if "o' \<in> set (obs # results)" "firstQualifying curators o' idx"
      "getConfirmationDateAccountingForTaxonChanges g idx o' sink = Inr (r, sink')"
    for o' idx r sink sink'
  proof (cases "o' = obs")
    case True
    then have "set (deprecatedTaxonIds r) \<subseteq> set (taxonsToRemove st1)"
      using a that(2,3) by blast
    then show ?thesis using mono by blast
  next
    case False
    then have "o' \<in> set results" using that(1) by simp
    then show ?thesis using b that(2,3) by blast
  qed
  then show ?case using a mono by blast
qed

lemma getUniqueItems_remdups: "getUniqueItems arr = rev (remdups (rev arr))"
  by (induction arr rule: rev_induct) (auto simp: getUniqueItems_Nil getUniqueItems_snoc)

text \<open>
  Claim C8. \<open>getUniqueItems\<close> keeps the first occurrence of every id, in the order of
  first occurrence: read from the left, an element is kept exactly when it was not seen
  before; the result has no duplicates and the same elements, and the empty array gives the
  empty array. When all files are read without error, with final state \<open>st\<close>,
  \<open>parseDataFiles\<close> deletes every id of \<open>getUniqueItems (taxonsToRemove st)\<close> from
  \<open>processedData\<close>: the returned \<open>newAdditions\<close> has no entry for an id in
  \<open>taxonsToRemove\<close> and the entries of \<open>processedData\<close> for all others; so every id
  that the resolver returns as deprecated for the identification picked in some observation
  of the input is absent from \<open>newAdditions\<close>.
\<close>

theorem deprecated_ids_removed:
  "getUniqueItems [] = [] \<and>
   getUniqueItems (xs @ [x]) =
     (if x \<in> set xs then getUniqueItems xs else getUniqueItems xs @ [x]) \<and>
   getUniqueItems arr = rev (remdups (rev arr)) \<and>
   distinct (getUniqueItems arr) \<and> set (getUniqueItems arr) = set arr \<and>
   (parsePackets g t packets curators taxons
      \<lparr>processedData = Map.empty, taxonsToRemove = [], taxonChangeData = []\<rparr> = Inr st \<longrightarrow>
    (\<exists>out.
       parseDataFiles g t packets curators taxons = Inr out \<and>
       newAdditions out =
         foldl (\<lambda>m taxonId. m(taxonId := None)) (processedData st)
           (getUniqueItems (taxonsToRemove st)) \<and>
       (\<forall>k. newAdditions out k =
              (if k \<in> set (taxonsToRemove st) then None else processedData st k)) \<and>
       (\<forall>obs \<in> set (concat packets). \<forall>idx r sink sink'.
          firstQualifying curators obs idx \<and>
          getConfirmationDateAccountingForTaxonChanges g idx obs sink = Inr (r, sink') \<longrightarrow>
          (\<forall>k \<in> set (deprecatedTaxonIds r). newAdditions out k = None))))"
proof (intro conjI impI)
  show "getUniqueItems [] = []" by (rule getUniqueItems_Nil)
  show "getUniqueItems (xs @ [x]) =
     (if x \<in> set xs then getUniqueItems xs else getUniqueItems xs @ [x])"
    by (rule getUniqueItems_snoc)
  show "getUniqueItems arr = rev (remdups (rev arr))" by (rule getUniqueItems_remdups)
  show "distinct (getUniqueItems arr)" by (rule getUniqueItems_distinct)
  show "set (getUniqueItems arr) = set arr" by (rule getUniqueItems_set)
next
  let ?init = "\<lparr>processedData = Map.empty, taxonsToRemove = [], taxonChangeData = []\<rparr>"
  let ?out = "\<lparr>newAdditions =
                 foldl (\<lambda>m taxonId. m(taxonId := None)) (processedData st)
                   (getUniqueItems (taxonsToRemove st)),
               taxonChangeDataGroupedByYear =
                 foldl groupRow Map.empty (taxonChangeData st)\<rparr>"
  assume st: "parsePackets g t packets curators taxons ?init = Inr st"
  then have out: "parseDataFiles g t packets curators taxons = Inr ?out"
    by (simp add: parseDataFiles_def)
  have look: "\<forall>k. newAdditions ?out k =
              (if k \<in> set (taxonsToRemove st) then None else processedData st k)"
    by (simp add: foldl_delete getUniqueItems_set)
  have pf: "parseDataFile g t (concat packets) curators taxons ?init = Inr st"
    using st by (simp add: parsePackets_concat)
  have flagged: "\<forall>obs \<in> set (concat packets). \<forall>idx r sink sink'.
          firstQualifying curators obs idx \<and>
          getConfirmationDateAccountingForTaxonChanges g idx obs sink = Inr (r, sink') \<longrightarrow>
          (\<forall>k \<in> set (deprecatedTaxonIds r). newAdditions ?out k = None)"
  proof (intro ballI allI impI)
    fix obs idx r sink sink' k
    assume "obs \<in> set (concat packets)"
      and "firstQualifying curators obs idx \<and>
          getConfirmationDateAccountingForTaxonChanges g idx obs sink = Inr (r, sink')"
      and "k \<in> set (deprecatedTaxonIds r)"
    then have "k \<in> set (taxonsToRemove st)"
      using parseDataFile_removals [OF pf] by blast
    then show "newAdditions ?out k = None" using look by simp
  qed
  show "\<exists>out.
       parseDataFiles g t packets curators taxons = Inr out \<and>
       newAdditions out =
         foldl (\<lambda>m taxonId. m(taxonId := None)) (processedData st)
           (getUniqueItems (taxonsToRemove st)) \<and>
       (\<forall>k. newAdditions out k =
              (if k \<in> set (taxonsToRemove st) then None else processedData st k)) \<and>
       (\<forall>obs \<in> set (concat packets). \<forall>idx r sink sink'.
          firstQualifying curators obs idx \<and>
          getConfirmationDateAccountingForTaxonChanges g idx obs sink = Inr (r, sink') \<longrightarrow>
          (\<forall>k \<in> set (deprecatedTaxonIds r). newAdditions out k = None))"
    using out look flagged by (intro exI [of _ ?out] conjI) simp_all
qed

theorem deprecated_ids_removed_witness:
  "let obsA = exampleObs [identBy alice (speciesTaxon 100 ''Aus bus'') True ''2020-05-01'' None];
       obsB = exampleObs [identBy alice (speciesTaxon 100 ''Aus bus'') False ''2019-03-01'' None,
                          identBy alice (speciesTaxon 200 ''Aus cus'') True ''2021-06-01'' (swap 7)]
   in \<exists>st out.
        parsePackets exampleYear exampleTime [[obsA], [obsB]] [''alice''] [''genus'']
          \<lparr>processedData = Map.empty, taxonsToRemove = [], taxonChangeData = []\<rparr> = Inr st \<and>
        processedData st 100 \<noteq> None \<and>
        taxonsToRemove st = [100] \<and>
        parseDataFiles exampleYear exampleTime [[obsA], [obsB]] [''alice''] [''genus''] = Inr out \<and>
        newAdditions out 100 = None \<and>
        map_option (map rec_confirmationDate \<circ> observations) (newAdditions out 200) =
          Some [Some ''2019-03-01'']"
proof -
  let ?obsA = "exampleObs [identBy alice (speciesTaxon 100 ''Aus bus'') True ''2020-05-01'' None]"
  let ?obsB = "exampleObs [identBy alice (speciesTaxon 100 ''Aus bus'') False ''2019-03-01'' None,
                          identBy alice (speciesTaxon 200 ''Aus cus'') True ''2021-06-01'' (swap 7)]"
  obtain st where st:
    "parsePackets exampleYear exampleTime [[?obsA], [?obsB]] [''alice''] [''genus'']
          \<lparr>processedData = Map.empty, taxonsToRemove = [], taxonChangeData = []\<rparr> = Inr st"
    "processedData st 100 \<noteq> None"
    "taxonsToRemove st = [100]"
    "map_option (map rec_confirmationDate \<circ> observations) (processedData st 200) =
          Some [Some ''2019-03-01'']"
    by (simp add: scanner_eval example_defs curatorObsEntry_def taxonChangeEvent_def
        findOriginal.simps)
  from deprecated_ids_removed
    [of _ _ _ exampleYear exampleTime "[[?obsA], [?obsB]]" "[''alice'']" "[''genus'']" st,
     THEN conjunct2, THEN conjunct2, THEN conjunct2, THEN conjunct2, THEN conjunct2,
     THEN mp, OF st(1)]
  obtain out where out:
    "parseDataFiles exampleYear exampleTime [[?obsA], [?obsB]] [''alice''] [''genus''] = Inr out"
    "\<forall>k. newAdditions out k =
              (if k \<in> set (taxonsToRemove st) then None else processedData st k)"
    by blast
  have "newAdditions out 100 = None" using out(2) st(3) by simp
  moreover have "newAdditions out 200 = processedData st 200" using out(2) st(3) by simp
  ultimately show ?thesis
    unfolding Let_def using st out(1) by (intro exI [of _ st] exI [of _ out] conjI) simp_all
qed







end
